theory Spec2Isabelle
  imports Main "HOL-Library.Word" "HOL-Library.Signed_Division"
begin

section \<open>Data model (internal/models/queue.go)\<close>

text \<open>
  Go's \<open>int\<close> is the 64-bit signed integer of the build target (the Dockerfile compiles
  on the 64-bit golang image): \<open>+\<close>, \<open>-\<close> and \<open>*\<close> wrap around, \<open>\<le>s\<close> and \<open><s\<close> compare the
  two's-complement values. A Go string is a sequence of bytes, here a \<open>char list\<close>. The loops
  below range over the runes of a string; only the ASCII digits are ever told apart from the
  rest, every byte of a multi-byte rune is a non-digit just as the rune itself is, so
  walking the bytes gives the same digit runs. A \<open>time.Time\<close> is an instant, counted in
  nanoseconds from the zero value of the type, so that \<open>IsZero\<close> is the test against \<open>0\<close>;
  the order of the integers is the order of the instants.
\<close>

type_synonym go_int = "64 word"
type_synonym time = int

record QueueData =
  Name :: string
  ServedClients :: string
  WaitingClients :: string
  Workplaces :: string
  AvgServiceTime :: string
  AvgWaitTime :: string
  LastTicket :: string
  TicketsLeft :: string
  Status :: string
  LastUpdated :: time
  LastChanged :: time

text \<open>
  \<open>ChangedFields\<close> is a Go \<open>map[string]bool\<close>: a partial map, where reading a missing key
  gives \<open>false\<close>. \<open>PreviousData\<close> and \<open>CurrentData\<close> are pointers (\<open>None\<close> is \<open>nil\<close>); no
  function of the repository reads them back, the record keeps the value they point at.
\<close>

record QueueChanges =
  HasChanges :: bool
  ChangedFields :: "string \<rightharpoonup> bool"
  PreviousData :: "QueueData option"
  CurrentData :: "QueueData option"

text \<open>
  The errors of \<open>strconv.Atoi\<close> and of the digit scanners are the causes the estimator
  wraps. \<open>error\<close> lists what a function of the repository can hand back: the estimator's
  five error returns, a failed statement of the SQLite store, a failed call of the Telegram
  API, and the two run-time panics (which end the process).
\<close>

datatype cause = NoNumberFound | ErrSyntax | ErrRange

datatype error =
    MissingTicketInformation
  | InvalidUserTicketFormat cause
  | InvalidCurrentTicketFormat cause
  | InvalidServiceTimeFormat cause
  | InvalidWorkplacesFormat cause
  | DatabaseError
  | TelegramError
  | PanicIntegerDivideByZero
  | PanicNilPointerDereference

section \<open>Wait-time estimator\<close>

definition isDigit :: "char \<Rightarrow> bool" where
  "isDigit c \<longleftrightarrow> 48 \<le> (of_char c :: nat) \<and> (of_char c :: nat) \<le> 57"

definition decimal :: "string \<Rightarrow> nat" where
  "decimal ds = foldl (\<lambda>n c. n * 10 + (of_char c - 48)) 0 ds"

text \<open>
  \<open>strconv.Atoi\<close> for a 64-bit \<open>int\<close>: an optional sign, then one or more decimal digits;
  a value outside the range of \<open>int\<close> is the range error.
\<close>

definition Atoi :: "string \<Rightarrow> cause + go_int" where
  "Atoi s =
     (let neg = (s \<noteq> [] \<and> hd s = CHR ''-'');
          ds = (if s \<noteq> [] \<and> (hd s = CHR ''-'' \<or> hd s = CHR ''+'') then tl s else s)
      in if ds = [] \<or> \<not> list_all isDigit ds then Inl ErrSyntax
         else if neg then
           (if decimal ds \<le> 2 ^ 63 then Inr (- word_of_nat (decimal ds)) else Inl ErrRange)
         else
           (if decimal ds < 2 ^ 63 then Inr (word_of_nat (decimal ds)) else Inl ErrRange))"

text \<open>The loop of \<open>extractTicketNumber\<close>: every digit of the ticket, in order.\<close>

fun extractLoop :: "string \<Rightarrow> string \<Rightarrow> string" where
  "extractLoop [] numStr = numStr"
| "extractLoop (c # cs) numStr =
     (if isDigit c then extractLoop cs (numStr @ [c]) else extractLoop cs numStr)"

definition extractTicketNumber :: "string \<Rightarrow> cause + go_int" where
  "extractTicketNumber ticket =
     (let numStr = extractLoop ticket []
      in if numStr = [] then Inl NoNumberFound else Atoi numStr)"

text \<open>
  The loop shared by \<open>parseServiceTime\<close> and \<open>parseWorkplaces\<close>: the first run of digits,
  left at the first non-digit that follows a digit.
\<close>

fun leadingLoop :: "string \<Rightarrow> string \<Rightarrow> string" where
  "leadingLoop [] numStr = numStr"
| "leadingLoop (c # cs) numStr =
     (if isDigit c then leadingLoop cs (numStr @ [c])
      else if numStr \<noteq> [] then numStr
      else leadingLoop cs numStr)"

definition parseServiceTime :: "string \<Rightarrow> cause + go_int" where
  "parseServiceTime serviceTime =
     (let numStr = leadingLoop serviceTime []
      in if numStr = [] then Inl NoNumberFound else Atoi numStr)"

definition parseWorkplaces :: "string \<Rightarrow> cause + go_int" where
  "parseWorkplaces workplaces =
     (let numStr = leadingLoop workplaces []
      in if numStr = [] then Inl NoNumberFound else Atoi numStr)"

text \<open>
  Go's \<open>/\<close> on \<open>int\<close>: the quotient truncated towards zero, and a run-time panic when the
  divisor is zero.
\<close>

definition go_div :: "go_int \<Rightarrow> go_int \<Rightarrow> error + go_int" where
  "go_div a b =
     (if b = 0 then Inl PanicIntegerDivideByZero else Inr (word_of_int (sint a sdiv sint b)))"

definition CalculateWaitTime :: "QueueData \<Rightarrow> string \<Rightarrow> error + go_int" where
  "CalculateWaitTime q userTicket =
     (if userTicket = [] \<or> LastTicket q = [] then Inl MissingTicketInformation
      else case extractTicketNumber userTicket of
        Inl e \<Rightarrow> Inl (InvalidUserTicketFormat e)
      | Inr userNum \<Rightarrow>
     (case extractTicketNumber (LastTicket q) of
        Inl e \<Rightarrow> Inl (InvalidCurrentTicketFormat e)
      | Inr currentNum \<Rightarrow>
     (let ticketsRemaining = userNum - currentNum
      in if ticketsRemaining \<le>s 0 then Inr 0
      else case parseServiceTime (AvgServiceTime q) of
        Inl e \<Rightarrow> Inl (InvalidServiceTimeFormat e)
      | Inr avgServiceMinutes \<Rightarrow>
     (case parseWorkplaces (Workplaces q) of
        Inl e \<Rightarrow> Inl (InvalidWorkplacesFormat e)
      | Inr workplaces \<Rightarrow>
     (let workplaces' = (if workplaces \<le>s 0 then 1 else workplaces);
          totalServiceTime = ticketsRemaining * avgServiceMinutes
      in go_div totalServiceTime workplaces')))))"

section \<open>Snapshot comparator\<close>

text \<open>
  \<open>previous\<close> and \<open>current\<close> are pointers. A \<open>nil\<close> previous returns before anything is
  read; otherwise both are read, and reading a \<open>nil\<close> current is the nil-pointer panic.
  Each of the seven tests of the function has the same body, \<open>markIf\<close>: when the two
  values differ, set \<open>HasChanges\<close> and enter the field's key in \<open>ChangedFields\<close>.
\<close>

definition markIf :: "bool \<Rightarrow> string \<Rightarrow> QueueChanges \<Rightarrow> QueueChanges" where
  "markIf differs key changes =
     (if differs
      then changes\<lparr>HasChanges := True, ChangedFields := (ChangedFields changes)(key \<mapsto> True)\<rparr>
      else changes)"

definition CompareQueues :: "QueueData option \<Rightarrow> QueueData option \<Rightarrow> error + QueueChanges" where
  "CompareQueues previous current =
     (case previous of
        None \<Rightarrow>
          Inr \<lparr>HasChanges = True, ChangedFields = Map.empty,
               PreviousData = None, CurrentData = current\<rparr>
      | Some p \<Rightarrow>
     (case current of
        None \<Rightarrow> Inl PanicNilPointerDereference
      | Some c \<Rightarrow>
     (let changes = \<lparr>HasChanges = False, ChangedFields = Map.empty,
                       PreviousData = previous, CurrentData = current\<rparr>;
          changes = markIf (Name p \<noteq> Name c) ''name'' changes;
          changes = markIf (ServedClients p \<noteq> ServedClients c) ''served_clients'' changes;
          changes = markIf (WaitingClients p \<noteq> WaitingClients c) ''waiting_clients'' changes;
          changes = markIf (Workplaces p \<noteq> Workplaces c) ''workplaces'' changes;
          changes = markIf (LastTicket p \<noteq> LastTicket c) ''last_ticket'' changes;
          changes = markIf (TicketsLeft p \<noteq> TicketsLeft c) ''tickets_left'' changes;
          changes = markIf (Status p \<noteq> Status c) ''status'' changes
      in Inr changes)))"

definition Clone :: "QueueData option \<Rightarrow> QueueData option" where
  "Clone q =
     (case q of
        None \<Rightarrow> None
      | Some d \<Rightarrow>
          Some \<lparr>Name = Name d, ServedClients = ServedClients d,
                WaitingClients = WaitingClients d, Workplaces = Workplaces d,
                AvgServiceTime = AvgServiceTime d, AvgWaitTime = AvgWaitTime d,
                LastTicket = LastTicket d, TicketsLeft = TicketsLeft d, Status = Status d,
                LastUpdated = LastUpdated d, LastChanged = LastChanged d\<rparr>)"

section \<open>Message renderer\<close>

text \<open>
  The string constants of the renderer are UTF-8; bytes outside printable ASCII, the
  backslash and the line feed are written by their codes. \<open>fmt.Sprintf\<close> with \<open>%s\<close> is
  concatenation, with \<open>%d\<close> the decimal numeral of the integer. \<open>Format("15:04:05")\<close>
  belongs to Go's library and depends on the process's time zone: the renderer takes it
  as the parameter \<open>fmt\<close>. The renderer is the one of the revision of \<open>queue.go\<close> that
  holds the estimator, where \<open>FormatTelegramMessage\<close> is \<open>FormatTelegramMessageWithTicket\<close>
  with no ticket; the other revision writes one more field line (the average wait time,
  under the key \<open>avg_wait_time\<close>) and a longer label before the change time, and tests
  the markers in the same way.
\<close>

definition escapeMarkdown :: "string \<Rightarrow> string" where
  "escapeMarkdown text =
     concat (map (\<lambda>c. if c \<in> set (''_*[]()~`>#+-=|{}.!'') then [CHR 0x5C, c] else [c]) text)"

function showNat :: "nat \<Rightarrow> string" where
  "showNat n =
     (if n < 10 then [''0123456789'' ! n]
      else showNat (n div 10) @ [''0123456789'' ! (n mod 10)])"
  by pat_completeness auto
termination
  by (relation "measure id") auto

definition showInt :: "go_int \<Rightarrow> string" where
  "showInt i = (if i <s 0 then ''-'' @ showNat (nat (- sint i)) else showNat (nat (sint i)))"

definition markerChanged :: string where
  "markerChanged = [CHR 0xF0, CHR 0x9F, CHR 0x9F, CHR 0xA2]"

definition markerUnchanged :: string where
  "markerUnchanged = [CHR 0xE2, CHR 0x9A, CHR 0xAA]"

text \<open>The test of \<open>formatField\<close>: \<open>changes != nil && changes.ChangedFields[fieldKey]\<close>.\<close>

definition fieldChanged :: "QueueChanges option \<Rightarrow> string \<Rightarrow> bool" where
  "fieldChanged changes fieldKey =
     (case changes of
        None \<Rightarrow> False
      | Some ch \<Rightarrow> (case ChangedFields ch fieldKey of None \<Rightarrow> False | Some b \<Rightarrow> b))"

definition formatField :: "QueueChanges option \<Rightarrow> string \<Rightarrow> string \<Rightarrow> string \<Rightarrow> string" where
  "formatField changes label val fieldKey =
     (if fieldChanged changes fieldKey then markerChanged else markerUnchanged)
       @ '' *'' @ label @ '':* '' @ escapeMarkdown val @ [CHR 0x0A]"

definition headerLine :: string where
  "headerLine =
     [CHR 0xF0, CHR 0x9F, CHR 0x8F, CHR 0xA2] @ '' *''
       @ [CHR 0xD0, CHR 0x9E, CHR 0xD1, CHR 0x87, CHR 0xD0, CHR 0xB5, CHR 0xD1, CHR 0x80,
          CHR 0xD0, CHR 0xB5, CHR 0xD0, CHR 0xB4, CHR 0xD1, CHR 0x8C]
       @ '': odbi'' @ [CHR 0xC3, CHR 0xB3] @ ''r karty '' @ [CHR 0x5C] @ ''(Wroc''
       @ [CHR 0xC5, CHR 0x82] @ ''aw'' @ [CHR 0x5C] @ '')*'' @ [CHR 0x0A, CHR 0x0A]"

definition labelServed :: string where
  "labelServed =
     [CHR 0xD0, CHR 0x9E, CHR 0xD0, CHR 0xB1, CHR 0xD1, CHR 0x81, CHR 0xD0, CHR 0xBB, CHR 0xD1,
      CHR 0x83, CHR 0xD0, CHR 0xB6, CHR 0xD0, CHR 0xB5, CHR 0xD0, CHR 0xBD, CHR 0xD0, CHR 0xBE]"

definition labelWaiting :: string where
  "labelWaiting =
     [CHR 0xD0, CHR 0x9E, CHR 0xD0, CHR 0xB6, CHR 0xD0, CHR 0xB8, CHR 0xD0, CHR 0xB4, CHR 0xD0,
      CHR 0xB0, CHR 0xD0, CHR 0xB5, CHR 0xD1, CHR 0x82]"

definition labelWorkplaces :: string where
  "labelWorkplaces =
     [CHR 0xD0, CHR 0xA1, CHR 0xD1, CHR 0x82, CHR 0xD0, CHR 0xBE, CHR 0xD0, CHR 0xB5, CHR 0xD0,
      CHR 0xBA]"

definition labelAvgTime :: string where
  "labelAvgTime =
     [CHR 0xD0, CHR 0xA1, CHR 0xD1, CHR 0x80, CHR 0xD0, CHR 0xB5, CHR 0xD0, CHR 0xB4, CHR 0xD0,
      CHR 0xBD, CHR 0xD0, CHR 0xB5, CHR 0xD0, CHR 0xB5] @ '' ''
       @ [CHR 0xD0, CHR 0xB2, CHR 0xD1, CHR 0x80, CHR 0xD0, CHR 0xB5, CHR 0xD0, CHR 0xBC, CHR 0xD1,
          CHR 0x8F]"

definition labelLastTicket :: string where
  "labelLastTicket =
     [CHR 0xD0, CHR 0x9F, CHR 0xD0, CHR 0xBE, CHR 0xD1, CHR 0x81, CHR 0xD0, CHR 0xBB, CHR 0xD0,
      CHR 0xB5, CHR 0xD0, CHR 0xB4, CHR 0xD0, CHR 0xBD, CHR 0xD0, CHR 0xB8, CHR 0xD0, CHR 0xB9]
       @ '' ''
       @ [CHR 0xD0, CHR 0xB1, CHR 0xD0, CHR 0xB8, CHR 0xD0, CHR 0xBB, CHR 0xD0, CHR 0xB5, CHR 0xD1,
          CHR 0x82]"

definition labelTicketsLeft :: string where
  "labelTicketsLeft =
     [CHR 0xD0, CHR 0x9E, CHR 0xD1, CHR 0x81, CHR 0xD1, CHR 0x82, CHR 0xD0, CHR 0xB0, CHR 0xD0,
      CHR 0xBB, CHR 0xD0, CHR 0xBE, CHR 0xD1, CHR 0x81, CHR 0xD1, CHR 0x8C] @ '' ''
       @ [CHR 0xD0, CHR 0xB1, CHR 0xD0, CHR 0xB8, CHR 0xD0, CHR 0xBB, CHR 0xD0, CHR 0xB5, CHR 0xD1,
          CHR 0x82, CHR 0xD0, CHR 0xBE, CHR 0xD0, CHR 0xB2]"

definition labelStatus :: string where
  "labelStatus =
     [CHR 0xD0, CHR 0xA1, CHR 0xD1, CHR 0x82, CHR 0xD0, CHR 0xB0, CHR 0xD1, CHR 0x82, CHR 0xD1,
      CHR 0x83, CHR 0xD1, CHR 0x81] @ '' ''
       @ [CHR 0xD0, CHR 0xBE, CHR 0xD1, CHR 0x87, CHR 0xD0, CHR 0xB5, CHR 0xD1, CHR 0x80, CHR 0xD0,
          CHR 0xB5, CHR 0xD0, CHR 0xB4, CHR 0xD0, CHR 0xB8]"

definition hoursSuffix :: string where
  "hoursSuffix = '' '' @ [CHR 0xD1, CHR 0x87, CHR 0x5C] @ ''. ''"

definition minutesSuffix :: string where
  "minutesSuffix =
     '' '' @ [CHR 0xD0, CHR 0xBC, CHR 0xD0, CHR 0xB8, CHR 0xD0, CHR 0xBD, CHR 0x5C] @ ''.''"

definition ticketPrefix :: string where
  "ticketPrefix =
     [CHR 0x0A, CHR 0xF0, CHR 0x9F, CHR 0x8E, CHR 0xAB] @ '' *''
       @ [CHR 0xD0, CHR 0x92, CHR 0xD0, CHR 0xB0, CHR 0xD1, CHR 0x88] @ '' ''
       @ [CHR 0xD0, CHR 0xB1, CHR 0xD0, CHR 0xB8, CHR 0xD0, CHR 0xBB, CHR 0xD0, CHR 0xB5, CHR 0xD1,
          CHR 0x82] @ '' ''"

definition remainingInfix :: string where
  "remainingInfix =
     '' '' @ [CHR 0x5C] @ ''- ''
       @ [CHR 0xD0, CHR 0xBE, CHR 0xD1, CHR 0x81, CHR 0xD1, CHR 0x82, CHR 0xD0, CHR 0xB0, CHR 0xD0,
          CHR 0xBB, CHR 0xD0, CHR 0xBE, CHR 0xD1, CHR 0x81, CHR 0xD1, CHR 0x8C] @ '':* ''"

definition yourTurnSuffix :: string where
  "yourTurnSuffix =
     '' '' @ [CHR 0x5C] @ ''- '' @ [CHR 0xD0, CHR 0xB2, CHR 0xD0, CHR 0xB0, CHR 0xD1, CHR 0x88,
       CHR 0xD0, CHR 0xB0] @ '' ''
       @ [CHR 0xD0, CHR 0xBE, CHR 0xD1, CHR 0x87, CHR 0xD0, CHR 0xB5, CHR 0xD1, CHR 0x80, CHR 0xD0,
          CHR 0xB5, CHR 0xD0, CHR 0xB4, CHR 0xD1, CHR 0x8C, CHR 0x5C] @ ''!*''"

definition syncPrefix :: string where
  "syncPrefix =
     [CHR 0x0A, CHR 0xF0, CHR 0x9F, CHR 0x94, CHR 0x84] @ '' *''
       @ [CHR 0xD0, CHR 0xA1, CHR 0xD0, CHR 0xB8, CHR 0xD0, CHR 0xBD, CHR 0xD1, CHR 0x85, CHR 0xD1,
          CHR 0x80, CHR 0xD0, CHR 0xBE, CHR 0xD0, CHR 0xBD, CHR 0xD0, CHR 0xB8, CHR 0xD0, CHR 0xB7,
          CHR 0xD0, CHR 0xB0, CHR 0xD1, CHR 0x86, CHR 0xD0, CHR 0xB8, CHR 0xD1, CHR 0x8F] @ '':* ''"

definition changePrefix :: string where
  "changePrefix =
     [CHR 0x0A, CHR 0xE2, CHR 0x8F, CHR 0xB0] @ '' *''
       @ [CHR 0xD0, CHR 0x98, CHR 0xD0, CHR 0xB7, CHR 0xD0, CHR 0xBC, CHR 0xD0, CHR 0xB5, CHR 0xD0,
          CHR 0xBD, CHR 0xD0, CHR 0xB5, CHR 0xD0, CHR 0xBD, CHR 0xD0, CHR 0xB8, CHR 0xD0, CHR 0xB5]
       @ '':* ''"

text \<open>
  The line about the user's ticket. \<open>hours\<close> and \<open>minutes\<close> divide by the constant 60.
  A panic of the estimator would leave the renderer as well; \<open>CalculateWaitTime\<close> never
  panics (lemma \<open>CalculateWaitTime_no_panic\<close> below), so every \<open>Inl\<close> here is a returned
  error, for which nothing is written.
\<close>

definition ticketLine :: "QueueData \<Rightarrow> string \<Rightarrow> string" where
  "ticketLine q userTicket =
     (if userTicket \<noteq> [] then
        (case CalculateWaitTime q userTicket of
           Inl err \<Rightarrow> []
         | Inr waitTime \<Rightarrow>
             if 0 <s waitTime then
               (let hours = word_of_int (sint waitTime sdiv 60) :: go_int;
                    minutes = word_of_int (sint waitTime smod 60) :: go_int;
                    timeStr = (if 0 <s hours
                               then showInt hours @ hoursSuffix @ showInt minutes @ minutesSuffix
                               else showInt minutes @ minutesSuffix)
                in ticketPrefix @ escapeMarkdown userTicket @ remainingInfix @ timeStr)
             else if waitTime = 0 then
               ticketPrefix @ escapeMarkdown userTicket @ yourTurnSuffix
             else [])
      else [])"

definition FormatTelegramMessageWithTicket ::
  "(time \<Rightarrow> string) \<Rightarrow> QueueData \<Rightarrow> QueueChanges option \<Rightarrow> string \<Rightarrow> string" where
  "FormatTelegramMessageWithTicket fmt q changes userTicket =
     headerLine
       @ formatField changes labelServed (ServedClients q) ''served_clients''
       @ formatField changes labelWaiting (WaitingClients q) ''waiting_clients''
       @ formatField changes labelWorkplaces (Workplaces q) ''workplaces''
       @ formatField changes labelAvgTime (AvgServiceTime q) ''avg_service_time''
       @ formatField changes labelLastTicket (LastTicket q) ''last_ticket''
       @ formatField changes labelTicketsLeft (TicketsLeft q) ''tickets_left''
       @ formatField changes labelStatus (Status q) ''status''
       @ ticketLine q userTicket
       @ syncPrefix @ fmt (LastUpdated q)
       @ (if LastChanged q \<noteq> 0 then changePrefix @ fmt (LastChanged q) else [])"

definition FormatTelegramMessage ::
  "(time \<Rightarrow> string) \<Rightarrow> QueueData \<Rightarrow> QueueChanges option \<Rightarrow> string" where
  "FormatTelegramMessage fmt q changes = FormatTelegramMessageWithTicket fmt q changes []"

section \<open>Subscriber registry (internal/database/sqlite.go)\<close>

text \<open>
  The \<open>users\<close> table is the list of its rows, the \<open>queue_history\<close> table the list of the
  saved snapshots in insertion order. A statement of the store can fail; whether it does is
  not decided by the program, so each call reads it from the environment of the cycle.
\<close>

record User =
  ID :: int
  ChatID :: int
  Username :: string
  JoinedAt :: time
  Active :: bool

record Database =
  users :: "User list"
  queue_history :: "QueueData list"

text \<open>
  What one polling cycle meets outside the program: the reading of \<open>time.Now()\<close>, the
  rendering of a clock time, which statements of the store fail, and what the Telegram API
  answers to an edit (by chat, message and text) and to a send (by chat and text: an error
  or the identifier of the new message).
\<close>

record env =
  now :: time
  clock :: "time \<Rightarrow> string"
  saveFails :: bool
  getUsersFails :: bool
  deactivateFails :: "int \<Rightarrow> bool"
  editFails :: "int \<Rightarrow> int \<Rightarrow> string \<Rightarrow> bool"
  sendResult :: "int \<Rightarrow> string \<Rightarrow> error + int"

definition GetActiveUsers :: "env \<Rightarrow> Database \<Rightarrow> error + User list" where
  "GetActiveUsers e d = (if getUsersFails e then Inl DatabaseError else Inr (filter Active (users d)))"

definition DeactivateUser :: "env \<Rightarrow> Database \<Rightarrow> int \<Rightarrow> error + Database" where
  "DeactivateUser e d chatID =
     (if deactivateFails e chatID then Inl DatabaseError
      else Inr (d\<lparr>users := map (\<lambda>u. if ChatID u = chatID then u\<lparr>Active := False\<rparr> else u)
                                 (users d)\<rparr>))"

definition SaveQueueHistory :: "env \<Rightarrow> Database \<Rightarrow> QueueData \<Rightarrow> error + Database" where
  "SaveQueueHistory e d queueData =
     (if saveFails e then Inl DatabaseError
      else Inr (d\<lparr>queue_history := queue_history d @ [queueData]\<rparr>))"

section \<open>Broadcast (internal/bot/telegram_bot.go)\<close>

text \<open>
  \<open>userMsgs\<close> maps a chat to the message the bot last sent there; only \<open>int\<close> message
  identifiers are ever stored, so the type assertion of the loop always holds. The calls
  made to the Telegram API are kept in order, as the trace of the cycle. The two counters
  of the loop and the pause between subscribers only feed the log and the pacing.
\<close>

datatype call = EditMessageText int int string | SendMessage int string

fun callChat :: "call \<Rightarrow> int" where
  "callChat (EditMessageText chatID messageID text) = chatID"
| "callChat (SendMessage chatID text) = chatID"

fun callText :: "call \<Rightarrow> string" where
  "callText (EditMessageText chatID messageID text) = text"
| "callText (SendMessage chatID text) = text"

record Fanout =
  store :: Database
  userMsgs :: "int \<rightharpoonup> int"
  calls :: "call list"

definition sendMessage :: "env \<Rightarrow> int \<Rightarrow> string \<Rightarrow> Fanout \<Rightarrow> int \<times> Fanout" where
  "sendMessage e chatID text s =
     (let s' = s\<lparr>calls := calls s @ [SendMessage chatID text]\<rparr>
      in case sendResult e chatID text of
           Inl err \<Rightarrow> (0, s')
         | Inr messageID \<Rightarrow> (messageID, s'))"

definition updateMessage :: "env \<Rightarrow> int \<Rightarrow> int \<Rightarrow> string \<Rightarrow> Fanout \<Rightarrow> error option \<times> Fanout" where
  "updateMessage e chatID messageID text s =
     (let s' = s\<lparr>calls := calls s @ [EditMessageText chatID messageID text]\<rparr>
      in if editFails e chatID messageID text then (Some TelegramError, s') else (None, s'))"

text \<open>The rest of the loop body once no update went through: send, then store or deactivate.\<close>

definition sendNew :: "env \<Rightarrow> string \<Rightarrow> int \<Rightarrow> Fanout \<Rightarrow> Fanout" where
  "sendNew e message chatID s =
     (case sendMessage e chatID message s of
        (msgID, s1) \<Rightarrow>
          if msgID \<noteq> 0 then s1\<lparr>userMsgs := (userMsgs s1)(chatID \<mapsto> msgID)\<rparr>
          else (case DeactivateUser e (store s1) chatID of
                  Inl err \<Rightarrow> s1
                | Inr d \<Rightarrow> s1\<lparr>store := d\<rparr>))"

definition deliver :: "env \<Rightarrow> string \<Rightarrow> User \<Rightarrow> Fanout \<Rightarrow> Fanout" where
  "deliver e message user s =
     (case userMsgs s (ChatID user) of
        Some msgID \<Rightarrow>
          (case updateMessage e (ChatID user) msgID message s of
             (None, s1) \<Rightarrow> s1
           | (Some err, s1) \<Rightarrow>
               sendNew e message (ChatID user) (s1\<lparr>userMsgs := (userMsgs s1)(ChatID user := None)\<rparr>))
      | None \<Rightarrow> sendNew e message (ChatID user) s)"

fun broadcastLoop :: "env \<Rightarrow> string \<Rightarrow> User list \<Rightarrow> Fanout \<Rightarrow> Fanout" where
  "broadcastLoop e message [] s = s"
| "broadcastLoop e message (user # rest) s = broadcastLoop e message rest (deliver e message user s)"

definition BroadcastQueueUpdate ::
  "env \<Rightarrow> QueueData \<Rightarrow> QueueChanges option \<Rightarrow> Fanout \<Rightarrow> error option \<times> Fanout" where
  "BroadcastQueueUpdate e queueData changes s =
     (case GetActiveUsers e (store s) of
        Inl err \<Rightarrow> (Some err, s)
      | Inr us \<Rightarrow>
          if us = [] then (None, s)
          else (None, broadcastLoop e (FormatTelegramMessage (clock e) queueData changes) us s))"

section \<open>Engine (cmd/main.go)\<close>

text \<open>
  The application holds the store and the bot (the bot's own state is \<open>userMsgs\<close>) and the
  three fields of the engine. One cycle returns the application, the snapshot object as the
  caller finds it afterwards (the cycle stamps its \<open>LastChanged\<close>), the change-set it gave to
  the broadcast, and the calls it made. The application's mutex is held for the whole of
  \<open>processQueueUpdate\<close>, so a cycle is one step; what the message handler does to the store
  and to \<open>userMsgs\<close> between two cycles is not part of a cycle, and the statements below
  hold from any state.
\<close>

record Application =
  db :: Database
  botMsgs :: "int \<rightharpoonup> int"
  lastData :: "QueueData option"
  lastChanged :: time
  lastChanges :: "QueueChanges option"

record Cycle =
  app :: Application
  snapshot :: QueueData
  shown :: "QueueChanges option"
  trace :: "call list"

text \<open>
  \<open>processQueueUpdate\<close>. A failed save is logged and the cycle goes on. The three
  branches after the comparison set \<open>lastChanged\<close>, stamp \<open>newData.LastChanged\<close> with it
  and set \<open>lastChanges\<close>; \<open>changes\<close> points at \<open>newData\<close>, so the stamp shows through its
  \<open>CurrentData\<close>. A failed broadcast is logged. The statistics at the end only feed the
  log. A \<open>nil\<close> \<open>newData\<close> panics, in the comparator or at the stamp.
\<close>

definition processQueueUpdate :: "env \<Rightarrow> Application \<Rightarrow> QueueData option \<Rightarrow> error + Cycle" where
  "processQueueUpdate e a newData =
     (case newData of
        None \<Rightarrow> Inl PanicNilPointerDereference
      | Some d \<Rightarrow>
     (let db1 = (case SaveQueueHistory e (db a) d of Inl err \<Rightarrow> db a | Inr x \<Rightarrow> x)
      in case CompareQueues (lastData a) newData of
        Inl err \<Rightarrow> Inl err
      | Inr changes \<Rightarrow>
     (let lastChanged' = (if lastData a = None then now e
                          else if HasChanges changes then now e
                          else lastChanged a);
          d' = d\<lparr>LastChanged := lastChanged'\<rparr>;
          changes' = changes\<lparr>CurrentData := Some d'\<rparr>;
          lastChanges' = (if lastData a = None then None
                          else if HasChanges changes then Some changes'
                          else lastChanges a);
          changesToShow = (if HasChanges changes then Some changes' else lastChanges')
      in case BroadcastQueueUpdate e d' changesToShow
                \<lparr>store = db1, userMsgs = botMsgs a, calls = []\<rparr> of
        (err, s) \<Rightarrow>
          Inr \<lparr>app = \<lparr>db = store s, botMsgs = userMsgs s, lastData = Clone (Some d'),
                       lastChanged = lastChanged', lastChanges = lastChanges'\<rparr>,
               snapshot = d', shown = changesToShow, trace = calls s\<rparr>)))"

text \<open>The cycles of a run of accepted snapshots, one after the other.\<close>

fun runCycles :: "Application \<Rightarrow> (env \<times> QueueData) list \<Rightarrow> error + Application" where
  "runCycles a [] = Inr a"
| "runCycles a ((e, d) # rest) =
     (case processQueueUpdate e a (Some d) of
        Inl err \<Rightarrow> Inl err
      | Inr c \<Rightarrow> runCycles (app c) rest)"

section \<open>Notions used in the statements and proofs\<close>

text \<open>The seven fields the comparator reads, each with the key it enters for it.\<close>

definition comparedFields :: "(string \<times> (QueueData \<Rightarrow> string)) list" where
  "comparedFields =
     [(''name'', Name), (''served_clients'', ServedClients),
      (''waiting_clients'', WaitingClients), (''workplaces'', Workplaces),
      (''last_ticket'', LastTicket), (''tickets_left'', TicketsLeft), (''status'', Status)]"

text \<open>The comparator reports a change between the engine's last snapshot and a new one.\<close>

definition reportsChange :: "Application \<Rightarrow> QueueData \<Rightarrow> bool" where
  "reportsChange a d =
     (case CompareQueues (lastData a) (Some d) of Inl err \<Rightarrow> False | Inr ch \<Rightarrow> HasChanges ch)"

text \<open>The rows of a chat in the \<open>users\<close> table, and a chat none of whose rows is active.\<close>

definition rowsOf :: "int \<Rightarrow> Database \<Rightarrow> User list" where
  "rowsOf k d = filter (\<lambda>u. ChatID u = k) (users d)"

definition inactive :: "int \<Rightarrow> Database \<Rightarrow> bool" where
  "inactive k d = list_all (\<lambda>u. ChatID u \<noteq> k) (filter Active (users d))"

text \<open>Concrete inputs, for the instances below.\<close>

definition sampleQueue :: QueueData where
  "sampleQueue =
     \<lparr>Name = ''odbior karty'', ServedClients = ''10'', WaitingClients = ''5'',
      Workplaces = ''3'', AvgServiceTime = ''6 min.'', AvgWaitTime = ''20 min.'',
      LastTicket = ''K065'', TicketsLeft = ''40'', Status = ''open'',
      LastUpdated = 1000, LastChanged = 0\<rparr>"

definition sampleUser :: User where
  "sampleUser = \<lparr>ID = 1, ChatID = 7, Username = ''ann'', JoinedAt = 0, Active = True\<rparr>"

definition sampleEnv :: env where
  "sampleEnv =
     \<lparr>now = 2000, clock = (\<lambda>t. ''12:00:00''), saveFails = False, getUsersFails = False,
      deactivateFails = (\<lambda>chatID. False), editFails = (\<lambda>chatID messageID text. False),
      sendResult = (\<lambda>chatID text. Inr 41)\<rparr>"

definition sampleStore :: Database where
  "sampleStore = \<lparr>users = [sampleUser], queue_history = []\<rparr>"

definition sampleFanout :: Fanout where
  "sampleFanout = \<lparr>store = sampleStore, userMsgs = Map.empty, calls = []\<rparr>"

definition sampleApp :: Application where
  "sampleApp =
     \<lparr>db = sampleStore, botMsgs = Map.empty, lastData = None, lastChanged = 100,
      lastChanges = None\<rparr>"

section \<open>Comparator\<close>

lemma HasChanges_markIf: "HasChanges (markIf b k ch) = (b \<or> HasChanges ch)"
  by (simp add: markIf_def)

lemma ChangedFields_markIf:
  "ChangedFields (markIf b k ch) x = (if b \<and> x = k then Some True else ChangedFields ch x)"
  by (simp add: markIf_def)

lemma CompareQueues_Some_Inr: "\<exists>ch. CompareQueues prev (Some d) = Inr ch"
  by (cases prev) (simp_all add: CompareQueues_def)

text \<open>
  C9. Whatever the current snapshot, comparing it with an absent previous snapshot returns a
  change-set with \<open>HasChanges\<close> true and an empty \<open>ChangedFields\<close>, so that no field is
  rendered as changed.
\<close>

theorem CompareQueues_absent_previous:
  "\<exists>ch. CompareQueues None current = Inr ch \<and> HasChanges ch \<and>
        ChangedFields ch = Map.empty \<and> (\<forall>k. \<not> fieldChanged (Some ch) k)"
  by (simp add: CompareQueues_def fieldChanged_def)

text \<open>
  C2, as amended. For two snapshots that are both present the comparator returns a
  change-set in which a key is entered exactly when it is the key of one of the seven
  compared fields (name, served_clients, waiting_clients, workplaces, last_ticket,
  tickets_left, status) and that field differs between the two snapshots; \<open>HasChanges\<close>
  holds exactly when one of the seven differs. The two average-time fields and the two
  timestamps take no part.
\<close>

theorem CompareQueues_flags_compared_fields:
  "\<exists>ch. CompareQueues (Some p) (Some c) = Inr ch \<and>
        (HasChanges ch \<longleftrightarrow> (\<exists>(key, field) \<in> set comparedFields. field p \<noteq> field c)) \<and>
        (\<forall>k. ChangedFields ch k =
               (if \<exists>(key, field) \<in> set comparedFields. key = k \<and> field p \<noteq> field c
                then Some True else None)) \<and>
        (\<forall>k. fieldChanged (Some ch) k \<longleftrightarrow>
               (\<exists>(key, field) \<in> set comparedFields. key = k \<and> field p \<noteq> field c))"
proof -
  obtain ch where ch: "CompareQueues (Some p) (Some c) = Inr ch"
    using CompareQueues_Some_Inr by blast
  have has: "HasChanges ch \<longleftrightarrow> (\<exists>(key, field) \<in> set comparedFields. field p \<noteq> field c)"
    using ch by (auto simp: CompareQueues_def HasChanges_markIf comparedFields_def)
  have fields: "ChangedFields ch k =
      (if \<exists>(key, field) \<in> set comparedFields. key = k \<and> field p \<noteq> field c
       then Some True else None)" for k
    using ch by (auto simp: CompareQueues_def ChangedFields_markIf comparedFields_def)
  have "fieldChanged (Some ch) k \<longleftrightarrow>
      (\<exists>(key, field) \<in> set comparedFields. key = k \<and> field p \<noteq> field c)" for k
    by (simp add: fieldChanged_def fields)
  with ch has fields show ?thesis by blast
qed

text \<open>
  C2, as stated, fails on the timestamps: two snapshots that differ in \<open>LastUpdated\<close> and
  in \<open>LastChanged\<close> and in nothing else compare as unchanged.
\<close>

theorem CompareQueues_ignores_timestamps:
  "LastUpdated (sampleQueue\<lparr>LastUpdated := 1011, LastChanged := 5\<rparr>) \<noteq> LastUpdated sampleQueue \<and>
   LastChanged (sampleQueue\<lparr>LastUpdated := 1011, LastChanged := 5\<rparr>) \<noteq> LastChanged sampleQueue \<and>
   CompareQueues (Some sampleQueue) (Some (sampleQueue\<lparr>LastUpdated := 1011, LastChanged := 5\<rparr>))
     = Inr \<lparr>HasChanges = False, ChangedFields = Map.empty,
            PreviousData = Some sampleQueue,
            CurrentData = Some (sampleQueue\<lparr>LastUpdated := 1011, LastChanged := 5\<rparr>)\<rparr>"
  by (simp add: CompareQueues_def markIf_def sampleQueue_def)

section \<open>Estimator\<close>

lemma extractLoop_filter: "extractLoop t acc = acc @ filter isDigit t"
  by (induction t arbitrary: acc) auto

lemma isDigit_not_sign: "isDigit c \<Longrightarrow> c \<noteq> CHR ''-'' \<and> c \<noteq> CHR ''+''"
  by (auto simp: isDigit_def)

lemma Atoi_digits:
  assumes "ds \<noteq> []" "list_all isDigit ds"
  shows "Atoi ds = (if decimal ds < 2 ^ 63 then Inr (word_of_nat (decimal ds)) else Inl ErrRange)"
proof -
  from assms have "isDigit (hd ds)" by (cases ds) auto
  then have "hd ds \<noteq> CHR ''-''" "hd ds \<noteq> CHR ''+''" using isDigit_not_sign by blast+
  with assms show ?thesis by (simp add: Atoi_def)
qed

text \<open>
  The number \<open>extractTicketNumber\<close> extracts is the decimal value of the ticket's digits,
  read in order; there is none when the ticket has no digit or when that value does not fit
  an \<open>int\<close>.
\<close>

lemma extractTicketNumber_eq:
  "extractTicketNumber t =
     (if filter isDigit t = [] then Inl NoNumberFound
      else if decimal (filter isDigit t) < 2 ^ 63
      then Inr (word_of_nat (decimal (filter isDigit t))) else Inl ErrRange)"
  by (simp add: extractTicketNumber_def extractLoop_filter Atoi_digits list_all_iff)

lemma sint_word_of_nat_small:
  assumes "n < 2 ^ 63"
  shows "sint (word_of_nat n :: go_int) = int n"
proof -
  have "sint (word_of_nat n :: go_int) = signed_take_bit 63 (int n)"
    by (simp add: signed_of_nat)
  moreover have "signed_take_bit 63 (int n) = int n"
    using assms by (intro signed_take_bit_int_eq_self) auto
  ultimately show ?thesis by simp
qed

lemma sint_diff_nonneg:
  assumes "0 \<le> sint (u::go_int)" "0 \<le> sint (c::go_int)"
  shows "sint (u - c) = sint u - sint c"
proof -
  have "sint u < 2 ^ 63" "sint c < 2 ^ 63"
    using sint_lt [of u] sint_lt [of c] by simp_all
  with assms have "- (2 ^ 63) \<le> sint u - sint c" "sint u - sint c < 2 ^ 63"
    by linarith+
  then have "signed_take_bit 63 (sint u - sint c) = sint u - sint c"
    by (rule signed_take_bit_int_eq_self)
  then show ?thesis by (simp add: sint_word_diff)
qed

lemma extractTicketNumber_nonneg:
  assumes "extractTicketNumber t = Inr u"
  shows "0 \<le> sint u"
  using assms by (auto simp: extractTicketNumber_eq sint_word_of_nat_small split: if_splits)

lemma extractTicketNumber_nonempty:
  assumes "extractTicketNumber t = Inr u"
  shows "t \<noteq> []"
  using assms by (auto simp: extractTicketNumber_eq split: if_splits)

text \<open>
  The product of two \<open>int\<close> values is the product of the integers whenever that fits 64
  bits, and wraps around otherwise, as at the second lemma.
\<close>

lemma go_product_exact:
  assumes "- (2 ^ 63) \<le> sint (a::go_int) * sint (b::go_int)" "sint a * sint b < 2 ^ 63"
  shows "sint (a * b) = sint a * sint b"
proof -
  have "signed_take_bit 63 (sint a * sint b) = sint a * sint b"
    using assms by (rule signed_take_bit_int_eq_self)
  then show ?thesis by (simp add: sint_word_mult)
qed

lemma go_product_wraps: "(9223372036854775807 :: go_int) * 2 = - 2"
  by simp

lemma go_div_one: "go_div a 1 = Inr a"
  by (simp add: go_div_def)

lemma CalculateWaitTime_no_panic: "CalculateWaitTime q t \<noteq> Inl PanicIntegerDivideByZero"
  by (auto simp: CalculateWaitTime_def Let_def go_div_def split: sum.splits)

lemma extractTicketNumber_K222: "extractTicketNumber ''K222'' = Inr 222"
  by (simp add: extractTicketNumber_def Atoi_def isDigit_def decimal_def)

lemma extractTicketNumber_K065: "extractTicketNumber ''K065'' = Inr 65"
  by (simp add: extractTicketNumber_def Atoi_def isDigit_def decimal_def)

lemma extractTicketNumber_K060: "extractTicketNumber ''K060'' = Inr 60"
  by (simp add: extractTicketNumber_def Atoi_def isDigit_def decimal_def)

lemma extractTicketNumber_K070: "extractTicketNumber ''K070'' = Inr 70"
  by (simp add: extractTicketNumber_def Atoi_def isDigit_def decimal_def)

lemma extractTicketNumber_K2: "extractTicketNumber ''K2'' = Inr 2"
  by (simp add: extractTicketNumber_def Atoi_def isDigit_def decimal_def)

lemma extractTicketNumber_K1: "extractTicketNumber ''K1'' = Inr 1"
  by (simp add: extractTicketNumber_def Atoi_def isDigit_def decimal_def)

lemma parseServiceTime_6_min: "parseServiceTime ''6 min.'' = Inr 6"
  by (simp add: parseServiceTime_def Atoi_def isDigit_def decimal_def)

lemma parseServiceTime_1_min: "parseServiceTime ''1 min.'' = Inr 1"
  by (simp add: parseServiceTime_def Atoi_def isDigit_def decimal_def)

lemma parseWorkplaces_3: "parseWorkplaces ''3'' = Inr 3"
  by (simp add: parseWorkplaces_def Atoi_def isDigit_def decimal_def)

lemma parseWorkplaces_1: "parseWorkplaces ''1'' = Inr 1"
  by (simp add: parseWorkplaces_def Atoi_def isDigit_def decimal_def)

lemma parseWorkplaces_0: "parseWorkplaces ''0'' = Inr 0"
  by (simp add: parseWorkplaces_def Atoi_def isDigit_def decimal_def)

text \<open>
  C3. With user ticket "K222", last ticket "K065", average service time "6 min." and
  workplaces "3", whatever the other fields of the snapshot, the estimator returns 314
  minutes and no error: (222 - 65) * 6 = 942, and 942 / 3 = 314.
\<close>

theorem CalculateWaitTime_K222_K065:
  "CalculateWaitTime
     (q\<lparr>LastTicket := ''K065'', AvgServiceTime := ''6 min.'', Workplaces := ''3''\<rparr>)
     ''K222'' = Inr 314"
  by (simp add: CalculateWaitTime_def extractTicketNumber_K222 extractTicketNumber_K065
      parseServiceTime_6_min parseWorkplaces_3 go_div_def word_sle_eq signed_divide_int_def)

text \<open>
  When a number is extracted from both tickets and the user's is at most the last-served
  one, the estimator returns 0 without reading the two metrics.
\<close>

lemma turn_reached_extracted:
  assumes "extractTicketNumber userTicket = Inr userNum"
    and "extractTicketNumber (LastTicket q) = Inr currentNum"
    and "userNum \<le>s currentNum"
  shows "CalculateWaitTime q userTicket = Inr 0 \<and>
         CalculateWaitTime (q\<lparr>AvgServiceTime := a, Workplaces := w\<rparr>) userTicket = Inr 0"
proof -
  have "sint (userNum - currentNum) = sint userNum - sint currentNum"
    using assms(1,2) by (intro sint_diff_nonneg extractTicketNumber_nonneg)
  with assms(3) have "userNum - currentNum \<le>s 0"
    by (simp add: word_sle_eq)
  moreover have "userTicket \<noteq> []" "LastTicket q \<noteq> []"
    using assms(1,2) by (auto dest: extractTicketNumber_nonempty)
  ultimately show ?thesis
    using assms(1,2) by (simp add: CalculateWaitTime_def)
qed

text \<open>
  C7, as amended. Take a user ticket and a snapshot whose ticket identifiers both contain
  digits, the digits of the last-served ticket denoting a number within the range of \<open>int\<close>
  (below 2^63), and let the number of the user's ticket be at most that of the last-served
  one. Then a number is extracted from each ticket, the decimal value of its digits, and the
  estimator returns 0 minutes and no error. It does so whatever the average service time
  and the workplaces strings are, also when neither can be parsed: they are not read.
\<close>

theorem CalculateWaitTime_turn_reached:
  assumes "filter isDigit userTicket \<noteq> []" and "filter isDigit (LastTicket q) \<noteq> []"
    and "decimal (filter isDigit (LastTicket q)) < 2 ^ 63"
    and "decimal (filter isDigit userTicket) \<le> decimal (filter isDigit (LastTicket q))"
  shows "extractTicketNumber userTicket
           = Inr (word_of_nat (decimal (filter isDigit userTicket))) \<and>
         extractTicketNumber (LastTicket q)
           = Inr (word_of_nat (decimal (filter isDigit (LastTicket q)))) \<and>
         CalculateWaitTime q userTicket = Inr 0 \<and>
         CalculateWaitTime (q\<lparr>AvgServiceTime := a, Workplaces := w\<rparr>) userTicket = Inr 0"
proof -
  let ?u = "decimal (filter isDigit userTicket)"
  let ?c = "decimal (filter isDigit (LastTicket q))"
  from assms(3,4) have fits: "?u < 2 ^ 63"
    by simp
  have user: "extractTicketNumber userTicket = Inr (word_of_nat ?u)"
    using assms(1) fits by (simp add: extractTicketNumber_eq)
  have last: "extractTicketNumber (LastTicket q) = Inr (word_of_nat ?c)"
    using assms(2,3) by (simp add: extractTicketNumber_eq)
  have "(word_of_nat ?u :: go_int) \<le>s word_of_nat ?c"
    using assms(3,4) fits by (simp add: word_sle_eq sint_word_of_nat_small)
  from turn_reached_extracted [OF user last this, where a = a and w = w] user last show ?thesis
    by simp
qed

theorem CalculateWaitTime_turn_reached_witness:
  "filter isDigit ''K060'' \<noteq> [] \<and> filter isDigit (LastTicket sampleQueue) \<noteq> [] \<and>
   decimal (filter isDigit (LastTicket sampleQueue)) < 2 ^ 63 \<and>
   decimal (filter isDigit ''K060'') \<le> decimal (filter isDigit (LastTicket sampleQueue)) \<and>
   extractTicketNumber ''K060'' = Inr 60 \<and>
   extractTicketNumber (LastTicket sampleQueue) = Inr 65 \<and>
   CalculateWaitTime sampleQueue ''K060'' = Inr 0 \<and>
   CalculateWaitTime (sampleQueue\<lparr>AvgServiceTime := ''N/A'', Workplaces := []\<rparr>) ''K060'' = Inr 0"
proof -
  have h1: "filter isDigit ''K060'' \<noteq> []"
    by (simp add: isDigit_def)
  have h2: "filter isDigit (LastTicket sampleQueue) \<noteq> []"
    by (simp add: sampleQueue_def isDigit_def)
  have h3: "decimal (filter isDigit (LastTicket sampleQueue)) < 2 ^ 63"
    by (simp add: sampleQueue_def isDigit_def decimal_def)
  have h4: "decimal (filter isDigit ''K060'') \<le> decimal (filter isDigit (LastTicket sampleQueue))"
    by (simp add: sampleQueue_def isDigit_def decimal_def)
  have v1: "decimal (filter isDigit ''K060'') = 60"
    by (simp add: isDigit_def decimal_def)
  have v2: "decimal (filter isDigit (LastTicket sampleQueue)) = 65"
    by (simp add: sampleQueue_def isDigit_def decimal_def)
  from CalculateWaitTime_turn_reached
    [OF h1 h2 h3 h4, where a = "''N/A''" and w = "[]", unfolded v1 v2]
  have "extractTicketNumber ''K060'' = Inr 60 \<and>
      extractTicketNumber (LastTicket sampleQueue) = Inr 65 \<and>
      CalculateWaitTime sampleQueue ''K060'' = Inr 0 \<and>
      CalculateWaitTime (sampleQueue\<lparr>AvgServiceTime := ''N/A'', Workplaces := []\<rparr>) ''K060'' = Inr 0"
    by simp
  with h1 h2 h3 h4 show ?thesis
    by blast
qed

text \<open>
  C7, as stated, fails on a ticket whose digits do not fit an \<open>int\<close>: the user's ticket "1"
  and the last-served ticket "99999999999999999999" both contain digits and 1 is the smaller
  number, but no number is extracted from the last-served ticket (\<open>strconv.Atoi\<close> returns its
  range error) and the estimator returns the error it wraps around that one.
\<close>

theorem CalculateWaitTime_overlong_ticket_errors:
  "filter isDigit ''1'' \<noteq> [] \<and>
   filter isDigit (LastTicket (sampleQueue\<lparr>LastTicket := ''99999999999999999999''\<rparr>)) \<noteq> [] \<and>
   decimal (filter isDigit ''1'')
     \<le> decimal (filter isDigit (LastTicket (sampleQueue\<lparr>LastTicket := ''99999999999999999999''\<rparr>))) \<and>
   extractTicketNumber ''1'' = Inr 1 \<and>
   extractTicketNumber ''99999999999999999999'' = Inl ErrRange \<and>
   CalculateWaitTime (sampleQueue\<lparr>LastTicket := ''99999999999999999999''\<rparr>) ''1''
     = Inl (InvalidCurrentTicketFormat ErrRange)"
  by (simp add: CalculateWaitTime_def extractTicketNumber_def Atoi_def isDigit_def decimal_def
      sampleQueue_def)

text \<open>
  C8. The estimator never divides by zero. When the ticket numbers are extracted with the
  user's number above the last-served one, the two metrics parse and the parsed workplace
  count is zero or negative, the count is taken as 1: the result is the product of the
  ticket difference and the average service minutes (the product of Go's \<open>int\<close>), the same
  result as for the workplaces string "1".
\<close>

theorem CalculateWaitTime_workplaces_clamped:
  "CalculateWaitTime q userTicket \<noteq> Inl PanicIntegerDivideByZero \<and>
   (extractTicketNumber userTicket = Inr userNum \<and>
    extractTicketNumber (LastTicket q) = Inr currentNum \<and>
    0 <s userNum - currentNum \<and>
    parseServiceTime (AvgServiceTime q) = Inr avgServiceMinutes \<and>
    parseWorkplaces (Workplaces q) = Inr workplaces \<and>
    workplaces \<le>s 0 \<longrightarrow>
      CalculateWaitTime q userTicket = Inr ((userNum - currentNum) * avgServiceMinutes) \<and>
      CalculateWaitTime q userTicket = CalculateWaitTime (q\<lparr>Workplaces := ''1''\<rparr>) userTicket)"
proof (intro conjI impI)
  show "CalculateWaitTime q userTicket \<noteq> Inl PanicIntegerDivideByZero"
    by (rule CalculateWaitTime_no_panic)
next
  assume h: "extractTicketNumber userTicket = Inr userNum \<and>
    extractTicketNumber (LastTicket q) = Inr currentNum \<and>
    0 <s userNum - currentNum \<and>
    parseServiceTime (AvgServiceTime q) = Inr avgServiceMinutes \<and>
    parseWorkplaces (Workplaces q) = Inr workplaces \<and>
    workplaces \<le>s 0"
  then have ne: "userTicket \<noteq> []" "LastTicket q \<noteq> []"
    by (auto dest: extractTicketNumber_nonempty)
  from h have pos: "\<not> userNum - currentNum \<le>s 0"
    by auto
  have not1: "\<not> (1::go_int) \<le>s 0"
    by (simp add: word_sle_eq)
  show "CalculateWaitTime q userTicket = Inr ((userNum - currentNum) * avgServiceMinutes)"
    using h ne pos by (simp add: CalculateWaitTime_def go_div_one)
  show "CalculateWaitTime q userTicket = CalculateWaitTime (q\<lparr>Workplaces := ''1''\<rparr>) userTicket"
    using h ne pos not1 by (simp add: CalculateWaitTime_def go_div_one parseWorkplaces_1)
qed

theorem CalculateWaitTime_workplaces_clamped_witness:
  "extractTicketNumber ''K070'' = Inr 70 \<and>
   extractTicketNumber (LastTicket (sampleQueue\<lparr>Workplaces := ''0''\<rparr>)) = Inr 65 \<and>
   (0 :: go_int) <s 70 - 65 \<and>
   parseServiceTime (AvgServiceTime (sampleQueue\<lparr>Workplaces := ''0''\<rparr>)) = Inr 6 \<and>
   parseWorkplaces (Workplaces (sampleQueue\<lparr>Workplaces := ''0''\<rparr>)) = Inr 0 \<and>
   (0 :: go_int) \<le>s 0 \<and>
   CalculateWaitTime (sampleQueue\<lparr>Workplaces := ''0''\<rparr>) ''K070'' = Inr 30"
proof -
  let ?q = "sampleQueue\<lparr>Workplaces := ''0''\<rparr>"
  have h: "extractTicketNumber ''K070'' = Inr 70 \<and>
      extractTicketNumber (LastTicket ?q) = Inr 65 \<and>
      (0 :: go_int) <s 70 - 65 \<and>
      parseServiceTime (AvgServiceTime ?q) = Inr 6 \<and>
      parseWorkplaces (Workplaces ?q) = Inr 0 \<and>
      (0 :: go_int) \<le>s 0"
    by (simp add: sampleQueue_def extractTicketNumber_K070 extractTicketNumber_K065
        parseServiceTime_6_min parseWorkplaces_0 word_sless_alt)
  from CalculateWaitTime_workplaces_clamped [of ?q "''K070''" 70 65 6 0] h
  have "CalculateWaitTime ?q ''K070'' = Inr ((70 - 65) * 6)"
    by blast
  with h show ?thesis by simp
qed

section \<open>Renderer\<close>

lemma ticketLine_zero:
  assumes "CalculateWaitTime q t = Inr 0"
  shows "ticketLine q t = ticketPrefix @ escapeMarkdown t @ yourTurnSuffix"
proof -
  have "t \<noteq> []" using assms by (auto simp: CalculateWaitTime_def)
  with assms show ?thesis by (simp add: ticketLine_def word_sless_alt)
qed

lemma formatField_cong:
  "fieldChanged ch k = fieldChanged ch' k \<Longrightarrow> formatField ch l v k = formatField ch' l v k"
  by (simp add: formatField_def)

lemma FormatTelegramMessage_markers:
  assumes "\<And>k. fieldChanged ch k = fieldChanged ch' k"
  shows "FormatTelegramMessage fmt q ch = FormatTelegramMessage fmt q ch'"
  by (simp add: FormatTelegramMessage_def FormatTelegramMessageWithTicket_def
      formatField_cong [OF assms])

text \<open>
  C10. With user ticket "K2", last ticket "K1", average service time "1 min." and
  workplaces "3", the user's number 2 is above the last-served number 1 and the estimator
  still returns 0 minutes and no error (1 * 1 / 3 = 0). And for every snapshot and ticket on
  which the estimator returns 0 and no error, the renderer writes the "your turn" line for
  the ticket into the message.
\<close>

theorem zero_minutes_before_turn:
  "extractTicketNumber ''K2'' = Inr 2 \<and> extractTicketNumber ''K1'' = Inr 1 \<and>
   (1 :: go_int) <s 2 \<and>
   CalculateWaitTime (q\<lparr>LastTicket := ''K1'', AvgServiceTime := ''1 min.'', Workplaces := ''3''\<rparr>)
     ''K2'' = Inr 0 \<and>
   (\<forall>fmt q' changes t.
      CalculateWaitTime q' t = Inr 0 \<longrightarrow>
        ticketLine q' t = ticketPrefix @ escapeMarkdown t @ yourTurnSuffix \<and>
        (\<exists>before after.
           FormatTelegramMessageWithTicket fmt q' changes t =
             before @ ticketPrefix @ escapeMarkdown t @ yourTurnSuffix @ after))"
proof -
  have lt: "(1 :: go_int) <s 2" by (simp add: word_sless_alt)
  have zero: "CalculateWaitTime
      (q\<lparr>LastTicket := ''K1'', AvgServiceTime := ''1 min.'', Workplaces := ''3''\<rparr>) ''K2'' = Inr 0"
    by (simp add: CalculateWaitTime_def extractTicketNumber_K2 extractTicketNumber_K1
        parseServiceTime_1_min parseWorkplaces_3 go_div_def word_sle_eq signed_divide_int_def)
  have shown: "\<exists>before after.
      FormatTelegramMessageWithTicket fmt q' changes t =
        before @ ticketPrefix @ escapeMarkdown t @ yourTurnSuffix @ after"
    if "CalculateWaitTime q' t = Inr 0" for fmt q' changes t
  proof -
    let ?before = "headerLine
       @ formatField changes labelServed (ServedClients q') ''served_clients''
       @ formatField changes labelWaiting (WaitingClients q') ''waiting_clients''
       @ formatField changes labelWorkplaces (Workplaces q') ''workplaces''
       @ formatField changes labelAvgTime (AvgServiceTime q') ''avg_service_time''
       @ formatField changes labelLastTicket (LastTicket q') ''last_ticket''
       @ formatField changes labelTicketsLeft (TicketsLeft q') ''tickets_left''
       @ formatField changes labelStatus (Status q') ''status''"
    let ?after = "syncPrefix @ fmt (LastUpdated q')
       @ (if LastChanged q' \<noteq> 0 then changePrefix @ fmt (LastChanged q') else [])"
    have "FormatTelegramMessageWithTicket fmt q' changes t =
        ?before @ ticketPrefix @ escapeMarkdown t @ yourTurnSuffix @ ?after"
      by (simp add: FormatTelegramMessageWithTicket_def ticketLine_zero [OF that])
    then show ?thesis by blast
  qed
  from lt zero shown ticketLine_zero show ?thesis
    by (simp add: extractTicketNumber_K2 extractTicketNumber_K1)
qed

theorem zero_minutes_before_turn_witness:
  "CalculateWaitTime
     (sampleQueue\<lparr>LastTicket := ''K1'', AvgServiceTime := ''1 min.'', Workplaces := ''3''\<rparr>)
     ''K2'' = Inr 0 \<and>
   ticketLine
     (sampleQueue\<lparr>LastTicket := ''K1'', AvgServiceTime := ''1 min.'', Workplaces := ''3''\<rparr>)
     ''K2'' = ticketPrefix @ ''K2'' @ yourTurnSuffix"
proof -
  let ?q = "sampleQueue\<lparr>LastTicket := ''K1'', AvgServiceTime := ''1 min.'', Workplaces := ''3''\<rparr>"
  from zero_minutes_before_turn [of sampleQueue]
  have zero: "CalculateWaitTime ?q ''K2'' = Inr 0"
    and line: "CalculateWaitTime ?q ''K2'' = Inr 0 \<longrightarrow>
       ticketLine ?q ''K2'' = ticketPrefix @ escapeMarkdown ''K2'' @ yourTurnSuffix"
    by blast+
  have "escapeMarkdown ''K2'' = ''K2''" by (simp add: escapeMarkdown_def)
  with zero line show ?thesis by simp
qed

section \<open>Broadcast\<close>

lemma GetActiveUsers_inactive:
  "GetActiveUsers e d = Inr us \<Longrightarrow> inactive k d \<longleftrightarrow> k \<notin> ChatID ` set us"
  by (auto simp: GetActiveUsers_def inactive_def list_all_iff split: if_splits)

lemma deactivated_rows:
  "k \<noteq> chat \<Longrightarrow>
   filter (\<lambda>u. ChatID u = k) (map (\<lambda>u. if ChatID u = chat then u\<lparr>Active := False\<rparr> else u) us)
     = filter (\<lambda>u. ChatID u = k) us"
  by (induction us) auto

lemma DeactivateUser_rowsOf:
  "DeactivateUser e d chat = Inr d' \<Longrightarrow> k \<noteq> chat \<Longrightarrow> rowsOf k d' = rowsOf k d"
  by (auto simp: DeactivateUser_def rowsOf_def deactivated_rows split: if_splits)

lemma deactivated_inactive:
  "list_all (\<lambda>u. ChatID u \<noteq> k)
     (filter Active (map (\<lambda>u. if ChatID u = k then u\<lparr>Active := False\<rparr> else u) us))"
  by (induction us) auto

lemma deactivated_mono:
  "list_all (\<lambda>u. ChatID u \<noteq> k) (filter Active us) \<Longrightarrow>
   list_all (\<lambda>u. ChatID u \<noteq> k)
     (filter Active (map (\<lambda>u. if ChatID u = chat then u\<lparr>Active := False\<rparr> else u) us))"
  by (induction us) (auto split: if_splits)

lemma DeactivateUser_inactive:
  "DeactivateUser e d k = Inr d' \<Longrightarrow> inactive k d'"
  by (auto simp: DeactivateUser_def inactive_def deactivated_inactive split: if_splits)

lemma DeactivateUser_mono:
  "DeactivateUser e d chat = Inr d' \<Longrightarrow> inactive k d \<Longrightarrow> inactive k d'"
  by (auto simp: DeactivateUser_def inactive_def deactivated_mono split: if_splits)

lemma sendMessage_eq:
  "sendMessage e chat msg s =
     ((case sendResult e chat msg of Inl err \<Rightarrow> 0 | Inr m \<Rightarrow> m),
      s\<lparr>calls := calls s @ [SendMessage chat msg]\<rparr>)"
  by (simp add: sendMessage_def Let_def split: sum.splits)

lemma sendNew_eq:
  "sendNew e msg chat s =
     (if (case sendResult e chat msg of Inl err \<Rightarrow> 0 | Inr m \<Rightarrow> m) \<noteq> 0
      then s\<lparr>calls := calls s @ [SendMessage chat msg],
             userMsgs := (userMsgs s)(chat \<mapsto> (case sendResult e chat msg of Inl err \<Rightarrow> 0 | Inr m \<Rightarrow> m))\<rparr>
      else (case DeactivateUser e (store s) chat of
              Inl err \<Rightarrow> s\<lparr>calls := calls s @ [SendMessage chat msg]\<rparr>
            | Inr d \<Rightarrow> s\<lparr>calls := calls s @ [SendMessage chat msg], store := d\<rparr>))"
  by (simp add: sendNew_def sendMessage_eq split: sum.splits)

lemma sendNew_other:
  assumes "k \<noteq> chat"
  shows "userMsgs (sendNew e msg chat s) k = userMsgs s k"
    and "rowsOf k (store (sendNew e msg chat s)) = rowsOf k (store s)"
  using assms
  by (auto simp: sendNew_eq DeactivateUser_rowsOf split: sum.splits)

lemma sendNew_mono:
  "inactive k (store s) \<Longrightarrow> inactive k (store (sendNew e msg chat s))"
  by (auto simp: sendNew_eq DeactivateUser_mono split: sum.splits)

lemma sendNew_fails:
  assumes "sendResult e k msg = Inl err" "userMsgs s k = None"
  shows "userMsgs (sendNew e msg k s) k = None"
    and "\<not> deactivateFails e k \<Longrightarrow> inactive k (store (sendNew e msg k s))"
  using assms
  by (auto simp: sendNew_eq DeactivateUser_def inactive_def deactivated_inactive split: sum.splits)

lemma sendNew_succeeds:
  assumes "sendResult e k msg = Inr h" "h \<noteq> 0"
  shows "userMsgs (sendNew e msg k s) k = Some h"
    and "store (sendNew e msg k s) = store s"
  using assms
  by (auto simp: sendNew_eq)

lemma sendNew_calls:
  "calls (sendNew e msg chat s) = calls s @ [SendMessage chat msg]"
  by (auto simp: sendNew_eq split: sum.splits)

lemma deliver_eq:
  "deliver e msg user s =
     (case userMsgs s (ChatID user) of
        None \<Rightarrow> sendNew e msg (ChatID user) s
      | Some m \<Rightarrow>
          if editFails e (ChatID user) m msg
          then sendNew e msg (ChatID user)
                 (s\<lparr>calls := calls s @ [EditMessageText (ChatID user) m msg],
                    userMsgs := (userMsgs s)(ChatID user := None)\<rparr>)
          else s\<lparr>calls := calls s @ [EditMessageText (ChatID user) m msg]\<rparr>)"
  by (simp add: deliver_def updateMessage_def Let_def split: option.splits)

lemma deliver_other:
  assumes "ChatID user \<noteq> k"
  shows "userMsgs (deliver e msg user s) k = userMsgs s k"
    and "rowsOf k (store (deliver e msg user s)) = rowsOf k (store s)"
  using assms by (auto simp: deliver_eq sendNew_other split: option.splits)

lemma deliver_mono:
  "inactive k (store s) \<Longrightarrow> inactive k (store (deliver e msg user s))"
  by (auto simp: deliver_eq sendNew_mono split: option.splits)

lemma deliver_calls:
  "callChat ` set (calls (deliver e msg user s)) \<subseteq> callChat ` set (calls s) \<union> {ChatID user}"
  by (auto simp: deliver_eq sendNew_calls split: option.splits)

lemma deliver_texts:
  "callText ` set (calls (deliver e msg user s)) \<subseteq> callText ` set (calls s) \<union> {msg}"
  by (auto simp: deliver_eq sendNew_calls split: option.splits)

lemma deliver_send_fails_keep:
  assumes "sendResult e k msg = Inl err" "userMsgs s k = None"
  shows "userMsgs (deliver e msg user s) k = None"
proof (cases "ChatID user = k")
  case True
  with assms show ?thesis by (simp add: deliver_eq sendNew_fails)
next
  case False
  with assms show ?thesis by (simp add: deliver_other)
qed

lemma deliver_send_fails_first:
  assumes "sendResult e k msg = Inl err" "\<not> deactivateFails e k" "ChatID user = k"
    and "userMsgs s k = None \<or> (\<exists>m. userMsgs s k = Some m \<and> editFails e k m msg)"
  shows "userMsgs (deliver e msg user s) k = None \<and> inactive k (store (deliver e msg user s))"
  using assms by (auto simp: deliver_eq sendNew_fails)

lemma loop_send_fails_rest:
  assumes "sendResult e k msg = Inl err"
  shows "userMsgs s k = None \<Longrightarrow> inactive k (store s) \<Longrightarrow>
         userMsgs (broadcastLoop e msg us s) k = None \<and> inactive k (store (broadcastLoop e msg us s))"
proof (induction us arbitrary: s)
  case Nil
  then show ?case by simp
next
  case (Cons user rest)
  have "userMsgs (deliver e msg user s) k = None"
    using assms Cons.prems(1) by (rule deliver_send_fails_keep)
  moreover have "inactive k (store (deliver e msg user s))"
    using Cons.prems(2) by (rule deliver_mono)
  ultimately show ?case using Cons.IH by simp
qed

lemma loop_send_fails:
  assumes "sendResult e k msg = Inl err" "\<not> deactivateFails e k"
  shows "k \<in> ChatID ` set us \<Longrightarrow>
         userMsgs s k = None \<or> (\<exists>m. userMsgs s k = Some m \<and> editFails e k m msg) \<Longrightarrow>
         inactive k (store (broadcastLoop e msg us s))"
proof (induction us arbitrary: s)
  case Nil
  then show ?case by simp
next
  case (Cons user rest)
  show ?case
  proof (cases "ChatID user = k")
    case True
    from deliver_send_fails_first [OF assms True Cons.prems(2)]
    show ?thesis using loop_send_fails_rest [OF assms(1)] by simp
  next
    case False
    then have "userMsgs (deliver e msg user s) k = userMsgs s k"
      by (simp add: deliver_other)
    moreover from False Cons.prems(1) have "k \<in> ChatID ` set rest" by auto
    ultimately show ?thesis using Cons.IH Cons.prems(2) by simp
  qed
qed

lemma loop_calls:
  "callChat ` set (calls (broadcastLoop e msg us s)) \<subseteq> callChat ` set (calls s) \<union> ChatID ` set us"
proof (induction us arbitrary: s)
  case Nil
  then show ?case by simp
next
  case (Cons user rest)
  from Cons.IH [of "deliver e msg user s"] deliver_calls [of e msg user s]
  show ?case by auto
qed

lemma loop_texts:
  "callText ` set (calls (broadcastLoop e msg us s)) \<subseteq> callText ` set (calls s) \<union> {msg}"
proof (induction us arbitrary: s)
  case Nil
  then show ?case by auto
next
  case (Cons user rest)
  from Cons.IH [of "deliver e msg user s"] deliver_texts [of e msg user s]
  show ?case by auto
qed

lemma deliver_send_ok_rows:
  assumes "sendResult e k msg = Inr h" "h \<noteq> 0"
  shows "rowsOf k (store (deliver e msg user s)) = rowsOf k (store s)"
proof (cases "ChatID user = k")
  case True
  with assms show ?thesis by (auto simp: deliver_eq sendNew_succeeds split: option.splits)
next
  case False
  then show ?thesis by (simp add: deliver_other)
qed

lemma deliver_send_ok_keep:
  assumes "sendResult e k msg = Inr h" "h \<noteq> 0" "userMsgs s k = Some h"
  shows "userMsgs (deliver e msg user s) k = Some h"
proof (cases "ChatID user = k")
  case True
  with assms show ?thesis by (auto simp: deliver_eq sendNew_succeeds)
next
  case False
  with assms show ?thesis by (simp add: deliver_other)
qed

lemma deliver_send_ok_first:
  assumes "sendResult e k msg = Inr h" "h \<noteq> 0" "ChatID user = k"
    and "userMsgs s k = Some m" "editFails e k m msg"
  shows "userMsgs (deliver e msg user s) k = Some h"
  using assms by (auto simp: deliver_eq sendNew_succeeds)

lemma loop_send_ok_rows:
  assumes "sendResult e k msg = Inr h" "h \<noteq> 0"
  shows "rowsOf k (store (broadcastLoop e msg us s)) = rowsOf k (store s)"
proof (induction us arbitrary: s)
  case Nil
  then show ?case by simp
next
  case (Cons user rest)
  then show ?case using deliver_send_ok_rows [OF assms] by simp
qed

lemma loop_send_ok_rest:
  assumes "sendResult e k msg = Inr h" "h \<noteq> 0"
  shows "userMsgs s k = Some h \<Longrightarrow> userMsgs (broadcastLoop e msg us s) k = Some h"
proof (induction us arbitrary: s)
  case Nil
  then show ?case by simp
next
  case (Cons user rest)
  from deliver_send_ok_keep [OF assms Cons.prems]
  show ?case using Cons.IH by simp
qed

lemma loop_send_ok:
  assumes "sendResult e k msg = Inr h" "h \<noteq> 0" "editFails e k m msg"
  shows "k \<in> ChatID ` set us \<Longrightarrow> userMsgs s k = Some m \<Longrightarrow>
         userMsgs (broadcastLoop e msg us s) k = Some h"
proof (induction us arbitrary: s)
  case Nil
  then show ?case by simp
next
  case (Cons user rest)
  show ?case
  proof (cases "ChatID user = k")
    case True
    from deliver_send_ok_first [OF assms(1,2) True Cons.prems(2) assms(3)]
    show ?thesis using loop_send_ok_rest [OF assms(1,2)] by simp
  next
    case False
    then have "userMsgs (deliver e msg user s) k = Some m"
      using Cons.prems(2) by (simp add: deliver_other)
    moreover from False Cons.prems(1) have "k \<in> ChatID ` set rest" by auto
    ultimately show ?thesis using Cons.IH by simp
  qed
qed

lemma Broadcast_loop:
  assumes "GetActiveUsers e (store s) = Inr us" "u \<in> set us"
  shows "snd (BroadcastQueueUpdate e q changes s) =
           broadcastLoop e (FormatTelegramMessage (clock e) q changes) us s"
  using assms by (auto simp: BroadcastQueueUpdate_def)

lemma Broadcast_calls:
  "callChat ` set (calls (snd (BroadcastQueueUpdate e q changes s)))
     \<subseteq> callChat ` set (calls s) \<union> {k. \<not> inactive k (store s)}"
proof (cases "GetActiveUsers e (store s)")
  case (Inl err)
  then show ?thesis by (simp add: BroadcastQueueUpdate_def)
next
  case (Inr us)
  then have "ChatID ` set us \<subseteq> {k. \<not> inactive k (store s)}"
    using GetActiveUsers_inactive [OF Inr] by auto
  with Inr loop_calls [of e "FormatTelegramMessage (clock e) q changes" us s]
  show ?thesis by (auto simp: BroadcastQueueUpdate_def)
qed

lemma deliver_write_fails_rows:
  assumes "deactivateFails e k"
  shows "rowsOf k (store (deliver e msg user s)) = rowsOf k (store s)"
proof (cases "ChatID user = k")
  case True
  with assms show ?thesis
    by (auto simp: deliver_eq sendNew_eq DeactivateUser_def split: option.splits)
next
  case False
  then show ?thesis by (simp add: deliver_other)
qed

lemma loop_write_fails_rows:
  assumes "deactivateFails e k"
  shows "rowsOf k (store (broadcastLoop e msg us s)) = rowsOf k (store s)"
proof (induction us arbitrary: s)
  case Nil
  then show ?case by simp
next
  case (Cons user rest)
  then show ?case using deliver_write_fails_rows [OF assms] by simp
qed

text \<open>
  C4, as amended. Take a subscriber of the active list for whom the cycle attempts a fresh
  send (no stored message, or a stored message whose update fails) and whose fresh send
  fails. The broadcast then asks the registry to deactivate the subscriber. When that write
  succeeds, no row of the subscriber's chat is active after the cycle, no later listing of
  the active subscribers returns the chat, and a later broadcast from any state with the
  same \<open>users\<close> table makes no call to the chat. When the write fails, the failure is
  logged and the subscriber is still an active row after the cycle.
\<close>

theorem failed_send_deactivates_when_registry_writes:
  assumes "GetActiveUsers e (store s) = Inr us" and "u \<in> set us"
    and "msg = FormatTelegramMessage (clock e) q changes"
    and "userMsgs s (ChatID u) = None \<or>
         (\<exists>m. userMsgs s (ChatID u) = Some m \<and> editFails e (ChatID u) m msg)"
    and "sendResult e (ChatID u) msg = Inl err"
    and "s' = snd (BroadcastQueueUpdate e q changes s)"
  shows "(\<not> deactivateFails e (ChatID u) \<longrightarrow>
           list_all (\<lambda>v. ChatID v \<noteq> ChatID u) (filter Active (users (store s'))) \<and>
           (\<forall>e' us'. GetActiveUsers e' (store s') = Inr us' \<longrightarrow> ChatID u \<notin> ChatID ` set us') \<and>
           (\<forall>e' q' changes' s''.
              users (store s'') = users (store s') \<longrightarrow>
              ChatID u \<notin> callChat ` set (calls (snd (BroadcastQueueUpdate e' q' changes'
                                                      (s''\<lparr>calls := []\<rparr>)))))) \<and>
         (deactivateFails e (ChatID u) \<longrightarrow> u \<in> set (filter Active (users (store s'))))"
proof (intro conjI impI)
  have s': "s' = broadcastLoop e msg us s"
    using assms(1,2,3,6) by (simp add: Broadcast_loop)
  have listed: "ChatID u \<in> ChatID ` set us" using assms(2) by simp
  {
    assume writes: "\<not> deactivateFails e (ChatID u)"
    from loop_send_fails [OF assms(5) writes listed assms(4)]
    have inact: "inactive (ChatID u) (store s')" by (simp add: s')
    then show "list_all (\<lambda>v. ChatID v \<noteq> ChatID u) (filter Active (users (store s')))"
      by (simp add: inactive_def)
    have "ChatID u \<notin> ChatID ` set us'" if "GetActiveUsers e' (store s') = Inr us'" for e' us'
      using GetActiveUsers_inactive [OF that] inact by simp
    then show "\<forall>e' us'. GetActiveUsers e' (store s') = Inr us' \<longrightarrow> ChatID u \<notin> ChatID ` set us'"
      by blast
    have "ChatID u \<notin> callChat ` set (calls (snd (BroadcastQueueUpdate e' q' changes'
                                                    (s''\<lparr>calls := []\<rparr>))))"
      if "users (store s'') = users (store s')" for e' q' changes' s''
    proof -
      from that inact have "inactive (ChatID u) (store (s''\<lparr>calls := []\<rparr>))"
        by (simp add: inactive_def)
      with Broadcast_calls [of e' q' changes' "s''\<lparr>calls := []\<rparr>"] show ?thesis by auto
    qed
    then show "\<forall>e' q' changes' s''.
        users (store s'') = users (store s') \<longrightarrow>
        ChatID u \<notin> callChat ` set (calls (snd (BroadcastQueueUpdate e' q' changes'
                                                (s''\<lparr>calls := []\<rparr>))))"
      by blast
  }
  {
    assume fails: "deactivateFails e (ChatID u)"
    have act: "u \<in> set (rowsOf (ChatID u) (store s))" "Active u"
      using assms(1,2) by (auto simp: GetActiveUsers_def rowsOf_def split: if_splits)
    have "rowsOf (ChatID u) (store s') = rowsOf (ChatID u) (store s)"
      using loop_write_fails_rows [OF fails] by (simp add: s')
    with act(1) have "u \<in> set (rowsOf (ChatID u) (store s'))"
      by simp
    with act(2) show "u \<in> set (filter Active (users (store s')))"
      by (simp add: rowsOf_def)
  }
qed

theorem failed_send_deactivates_witness:
  "GetActiveUsers (sampleEnv\<lparr>sendResult := (\<lambda>chatID text. Inl TelegramError)\<rparr>)
     (store sampleFanout) = Inr [sampleUser] \<and>
   userMsgs sampleFanout (ChatID sampleUser) = None \<and>
   sendResult (sampleEnv\<lparr>sendResult := (\<lambda>chatID text. Inl TelegramError)\<rparr>) (ChatID sampleUser)
     (FormatTelegramMessage (clock sampleEnv) sampleQueue None) = Inl TelegramError \<and>
   \<not> deactivateFails (sampleEnv\<lparr>sendResult := (\<lambda>chatID text. Inl TelegramError)\<rparr>)
       (ChatID sampleUser) \<and>
   list_all (\<lambda>v. ChatID v \<noteq> ChatID sampleUser)
     (filter Active (users (store (snd (BroadcastQueueUpdate
        (sampleEnv\<lparr>sendResult := (\<lambda>chatID text. Inl TelegramError)\<rparr>)
        sampleQueue None sampleFanout)))))"
proof -
  let ?e = "sampleEnv\<lparr>sendResult := (\<lambda>chatID text. Inl TelegramError)\<rparr>"
  let ?msg = "FormatTelegramMessage (clock ?e) sampleQueue None"
  have listed: "GetActiveUsers ?e (store sampleFanout) = Inr [sampleUser]"
    by (simp add: GetActiveUsers_def sampleEnv_def sampleFanout_def sampleStore_def sampleUser_def)
  have member: "sampleUser \<in> set [sampleUser]"
    by simp
  have fresh: "userMsgs sampleFanout (ChatID sampleUser) = None"
    by (simp add: sampleFanout_def)
  have fails: "sendResult ?e (ChatID sampleUser) ?msg = Inl TelegramError"
    by simp
  have writes: "\<not> deactivateFails ?e (ChatID sampleUser)"
    by (simp add: sampleEnv_def)
  have same: "clock ?e = clock sampleEnv"
    by simp
  from failed_send_deactivates_when_registry_writes
    [OF listed member refl disjI1 [OF fresh] fails refl] writes
  have "list_all (\<lambda>v. ChatID v \<noteq> ChatID sampleUser)
     (filter Active (users (store (snd (BroadcastQueueUpdate ?e sampleQueue None sampleFanout)))))"
    by blast
  with listed fresh fails writes same show ?thesis
    by simp
qed

text \<open>
  C4, as stated, fails when the registry's write fails as well: the subscriber's send fails,
  the deactivation is attempted, its failure is logged, and the subscriber is still listed
  as active after the cycle.
\<close>

theorem failed_send_failed_write_stays_active:
  "GetActiveUsers
     (sampleEnv\<lparr>sendResult := (\<lambda>chatID text. Inl TelegramError),
                deactivateFails := (\<lambda>chatID. True)\<rparr>)
     (store sampleFanout) = Inr [sampleUser] \<and>
   userMsgs sampleFanout (ChatID sampleUser) = None \<and>
   sendResult
     (sampleEnv\<lparr>sendResult := (\<lambda>chatID text. Inl TelegramError),
                deactivateFails := (\<lambda>chatID. True)\<rparr>)
     (ChatID sampleUser) (FormatTelegramMessage (clock sampleEnv) sampleQueue None)
     = Inl TelegramError \<and>
   calls (snd (BroadcastQueueUpdate
     (sampleEnv\<lparr>sendResult := (\<lambda>chatID text. Inl TelegramError),
                deactivateFails := (\<lambda>chatID. True)\<rparr>)
     sampleQueue None sampleFanout))
     = [SendMessage (ChatID sampleUser) (FormatTelegramMessage (clock sampleEnv) sampleQueue None)] \<and>
   GetActiveUsers sampleEnv (store (snd (BroadcastQueueUpdate
     (sampleEnv\<lparr>sendResult := (\<lambda>chatID text. Inl TelegramError),
                deactivateFails := (\<lambda>chatID. True)\<rparr>)
     sampleQueue None sampleFanout))) = Inr [sampleUser]"
  by (simp add: BroadcastQueueUpdate_def GetActiveUsers_def deliver_def sendNew_def
      sendMessage_def DeactivateUser_def sampleEnv_def sampleFanout_def sampleStore_def
      sampleUser_def)

text \<open>
  C5. Take a subscriber of the active list with a stored message whose update fails and
  whose fresh send succeeds (\<open>sendMessage\<close> returns the new message's identifier, which is
  not 0). After the cycle the stored message of the chat is the new identifier, and the
  subscriber is still an active row of the table, returned by the next listing.
\<close>

theorem failed_update_then_send_keeps_subscriber:
  assumes "GetActiveUsers e (store s) = Inr us" and "u \<in> set us"
    and "msg = FormatTelegramMessage (clock e) q changes"
    and "userMsgs s (ChatID u) = Some m"
    and "editFails e (ChatID u) m msg"
    and "sendResult e (ChatID u) msg = Inr h" and "h \<noteq> 0"
    and "s' = snd (BroadcastQueueUpdate e q changes s)"
  shows "userMsgs s' (ChatID u) = Some h \<and>
         u \<in> set (filter Active (users (store s'))) \<and>
         (\<forall>e'. getUsersFails e' \<or>
               (\<exists>us'. GetActiveUsers e' (store s') = Inr us' \<and> u \<in> set us'))"
proof -
  have s': "s' = broadcastLoop e msg us s"
    using assms(1,2,3,8) by (simp add: Broadcast_loop)
  have "ChatID u \<in> ChatID ` set us" using assms(2) by simp
  from loop_send_ok [OF assms(6,7,5) this assms(4)]
  have 1: "userMsgs s' (ChatID u) = Some h" by (simp add: s')
  have act: "u \<in> set (rowsOf (ChatID u) (store s))" "Active u"
    using assms(1,2) by (auto simp: GetActiveUsers_def rowsOf_def split: if_splits)
  have "rowsOf (ChatID u) (store s') = rowsOf (ChatID u) (store s)"
    using loop_send_ok_rows [OF assms(6,7)] by (simp add: s')
  with act(1) have "u \<in> set (rowsOf (ChatID u) (store s'))"
    by simp
  with act(2) have 2: "u \<in> set (filter Active (users (store s')))"
    by (simp add: rowsOf_def)
  then have 3: "getUsersFails e' \<or> (\<exists>us'. GetActiveUsers e' (store s') = Inr us' \<and> u \<in> set us')"
    for e'
    by (simp add: GetActiveUsers_def)
  from 1 2 3 show ?thesis by blast
qed

theorem failed_update_then_send_witness:
  "GetActiveUsers (sampleEnv\<lparr>editFails := (\<lambda>chatID messageID text. True)\<rparr>)
     (store (sampleFanout\<lparr>userMsgs := [ChatID sampleUser \<mapsto> 40]\<rparr>)) = Inr [sampleUser] \<and>
   userMsgs (sampleFanout\<lparr>userMsgs := [ChatID sampleUser \<mapsto> 40]\<rparr>) (ChatID sampleUser) = Some 40 \<and>
   editFails (sampleEnv\<lparr>editFails := (\<lambda>chatID messageID text. True)\<rparr>) (ChatID sampleUser) 40
     (FormatTelegramMessage (clock sampleEnv) sampleQueue None) \<and>
   sendResult (sampleEnv\<lparr>editFails := (\<lambda>chatID messageID text. True)\<rparr>) (ChatID sampleUser)
     (FormatTelegramMessage (clock sampleEnv) sampleQueue None) = Inr 41 \<and>
   userMsgs (snd (BroadcastQueueUpdate
       (sampleEnv\<lparr>editFails := (\<lambda>chatID messageID text. True)\<rparr>) sampleQueue None
       (sampleFanout\<lparr>userMsgs := [ChatID sampleUser \<mapsto> 40]\<rparr>))) (ChatID sampleUser) = Some 41 \<and>
   sampleUser \<in> set (filter Active (users (store (snd (BroadcastQueueUpdate
       (sampleEnv\<lparr>editFails := (\<lambda>chatID messageID text. True)\<rparr>) sampleQueue None
       (sampleFanout\<lparr>userMsgs := [ChatID sampleUser \<mapsto> 40]\<rparr>))))))"
proof -
  let ?e = "sampleEnv\<lparr>editFails := (\<lambda>chatID messageID text. True)\<rparr>"
  let ?s = "sampleFanout\<lparr>userMsgs := [ChatID sampleUser \<mapsto> 40]\<rparr>"
  let ?msg = "FormatTelegramMessage (clock ?e) sampleQueue None"
  have listed: "GetActiveUsers ?e (store ?s) = Inr [sampleUser]"
    by (simp add: GetActiveUsers_def sampleEnv_def sampleFanout_def sampleStore_def sampleUser_def)
  have member: "sampleUser \<in> set [sampleUser]"
    by simp
  have stored: "userMsgs ?s (ChatID sampleUser) = Some 40"
    by simp
  have stale: "editFails ?e (ChatID sampleUser) 40 ?msg"
    by simp
  have sent: "sendResult ?e (ChatID sampleUser) ?msg = Inr 41"
    by (simp add: sampleEnv_def)
  have nonzero: "(41 :: int) \<noteq> 0"
    by simp
  have same: "clock ?e = clock sampleEnv"
    by simp
  from failed_update_then_send_keeps_subscriber
    [OF listed member refl stored stale sent nonzero refl]
  have "userMsgs (snd (BroadcastQueueUpdate ?e sampleQueue None ?s)) (ChatID sampleUser) = Some 41 \<and>
      sampleUser \<in> set (filter Active (users (store (snd (BroadcastQueueUpdate ?e sampleQueue None ?s)))))"
    by blast
  with listed stored stale sent same show ?thesis
    by simp
qed

section \<open>Engine\<close>

lemma Clone_Some: "Clone (Some d) = Some d"
  by (simp add: Clone_def)

lemma reportsChange_first: "lastData a = None \<Longrightarrow> reportsChange a d"
  by (simp add: reportsChange_def CompareQueues_def)

text \<open>What one cycle on a present snapshot returns, field by field.\<close>

lemma processQueueUpdate_fields:
  "\<exists>c. processQueueUpdate e a (Some d) = Inr c \<and>
      lastChanged (app c) = (if reportsChange a d then now e else lastChanged a) \<and>
      snapshot c = d\<lparr>LastChanged := lastChanged (app c)\<rparr> \<and>
      lastData (app c) = Some (snapshot c) \<and>
      (\<not> reportsChange a d \<longrightarrow> lastChanges (app c) = lastChanges a \<and> shown c = lastChanges a) \<and>
      (\<forall>k. fieldChanged (lastChanges (app c)) k = fieldChanged (shown c) k) \<and>
      (\<forall>x \<in> set (trace c). callText x = FormatTelegramMessage (clock e) (snapshot c) (shown c))"
proof -
  obtain changes where ch: "CompareQueues (lastData a) (Some d) = Inr changes"
    using CompareQueues_Some_Inr by blast
  have first: "HasChanges changes \<and> ChangedFields changes = Map.empty" if "lastData a = None"
    using ch that by (auto simp: CompareQueues_def)
  have rc: "reportsChange a d = HasChanges changes"
    by (simp add: reportsChange_def ch)
  define lc where "lc = (if lastData a = None then now e
                          else if HasChanges changes then now e else lastChanged a)"
  define d' where "d' = d\<lparr>LastChanged := lc\<rparr>"
  define sticky where "sticky = (if lastData a = None then None
        else if HasChanges changes then Some (changes\<lparr>CurrentData := Some d'\<rparr>)
        else lastChanges a)"
  define toShow where "toShow = (if HasChanges changes
        then Some (changes\<lparr>CurrentData := Some d'\<rparr>) else sticky)"
  define s0 where "s0 = \<lparr>store = (case SaveQueueHistory e (db a) d of Inl err \<Rightarrow> db a | Inr x \<Rightarrow> x),
        userMsgs = botMsgs a, calls = []\<rparr>"
  define s where "s = snd (BroadcastQueueUpdate e d' toShow s0)"
  define c where "c = \<lparr>app = \<lparr>db = store s, botMsgs = userMsgs s, lastData = Clone (Some d'),
                       lastChanged = lc, lastChanges = sticky\<rparr>,
               snapshot = d', shown = toShow, trace = calls s\<rparr>"
  have run: "processQueueUpdate e a (Some d) = Inr c"
    by (simp add: processQueueUpdate_def ch Let_def c_def s_def s0_def toShow_def sticky_def
        d'_def lc_def split: prod.splits)
  have lc: "lc = (if reportsChange a d then now e else lastChanged a)"
    using first by (auto simp: lc_def rc)
  have markers: "fieldChanged sticky k = fieldChanged toShow k" for k
    using first by (auto simp: sticky_def toShow_def fieldChanged_def)
  have sticky: "sticky = lastChanges a \<and> toShow = lastChanges a" if "\<not> reportsChange a d"
    using that first by (auto simp: sticky_def toShow_def rc)
  have texts: "callText x = FormatTelegramMessage (clock e) d' toShow" if "x \<in> set (calls s)" for x
  proof -
    have "callText ` set (calls s) \<subseteq> {FormatTelegramMessage (clock e) d' toShow}"
    proof (cases "GetActiveUsers e (store s0)")
      case (Inl err)
      then show ?thesis by (simp add: s_def BroadcastQueueUpdate_def s0_def)
    next
      case (Inr us)
      with loop_texts [of e "FormatTelegramMessage (clock e) d' toShow" us s0]
      show ?thesis by (auto simp: s_def BroadcastQueueUpdate_def s0_def)
    qed
    with that show ?thesis by auto
  qed
  show ?thesis
    using run lc markers sticky texts
    by (intro exI [of _ c]) (simp add: c_def Clone_Some d'_def)
qed

text \<open>
  C6. For every engine state, every environment of the cycle (whether or not the save of
  the history, the listing of the subscribers, any update, any send or any deactivation
  fails) and every present snapshot, \<open>processQueueUpdate\<close> returns, and the engine's last
  snapshot is then a copy of the new snapshot as the cycle leaves it: every fetched field as
  received, \<open>LastChanged\<close> as stamped by the cycle. The copy and the snapshot are separate
  values of the result, so nothing done to the snapshot afterwards reaches \<open>lastData\<close>. The
  statement is for every present snapshot, validated or not.
\<close>

theorem processQueueUpdate_replaces_lastData:
  "\<exists>c. processQueueUpdate e a (Some d) = Inr c \<and>
       lastData (app c) = Clone (Some (snapshot c)) \<and>
       lastData (app c) = Some (snapshot c) \<and>
       snapshot c = d\<lparr>LastChanged := lastChanged (app c)\<rparr>"
  using processQueueUpdate_fields [of e a d] by (auto simp: Clone_Some)

lemma runCycles_append:
  "runCycles a (xs @ ys) = (case runCycles a xs of Inl err \<Rightarrow> Inl err | Inr a1 \<Rightarrow> runCycles a1 ys)"
proof (induction xs arbitrary: a)
  case Nil
  then show ?case by simp
next
  case (Cons x xs)
  obtain e d where x: "x = (e, d)" by (cases x)
  show ?case by (simp add: x Cons.IH split: sum.splits)
qed

text \<open>
  Along a run whose clock readings never go back, \<open>lastChanged\<close> never goes back and never
  passes a bound on the readings.
\<close>

lemma runCycles_monotone:
  "sorted (lastChanged a # map (\<lambda>x. now (fst x)) xs) \<Longrightarrow>
   \<exists>a'. runCycles a xs = Inr a' \<and> lastChanged a \<le> lastChanged a' \<and>
        (\<forall>t. lastChanged a \<le> t \<and> list_all (\<lambda>x. now (fst x) \<le> t) xs \<longrightarrow> lastChanged a' \<le> t)"
proof (induction xs arbitrary: a)
  case Nil
  then show ?case by simp
next
  case (Cons x xs)
  obtain e d where x: "x = (e, d)" by (cases x)
  obtain c where c: "processQueueUpdate e a (Some d) = Inr c"
    and lc: "lastChanged (app c) = (if reportsChange a d then now e else lastChanged a)"
    using processQueueUpdate_fields [of e a d] by blast
  from Cons.prems have le: "lastChanged a \<le> now e"
    and rest: "\<forall>y \<in> set xs. lastChanged a \<le> now (fst y) \<and> now e \<le> now (fst y)"
    and srt: "sorted (map (\<lambda>x. now (fst x)) xs)"
    by (auto simp: x)
  have "sorted (lastChanged (app c) # map (\<lambda>x. now (fst x)) xs)"
    using rest srt by (auto simp: lc)
  from Cons.IH [OF this] obtain a' where a': "runCycles (app c) xs = Inr a'"
    and mono: "lastChanged (app c) \<le> lastChanged a'"
    and bound: "\<forall>t. lastChanged (app c) \<le> t \<and> list_all (\<lambda>x. now (fst x) \<le> t) xs
                   \<longrightarrow> lastChanged a' \<le> t"
    by blast
  have step: "lastChanged a \<le> lastChanged (app c)"
    using le by (simp add: lc)
  have "lastChanged a' \<le> t"
    if "lastChanged a \<le> t" "list_all (\<lambda>x. now (fst x) \<le> t) (x # xs)" for t
  proof -
    from that have "lastChanged (app c) \<le> t" by (simp add: lc x)
    with that bound show ?thesis by simp
  qed
  with a' mono step c show ?case
    by (auto simp: x)
qed

text \<open>
  C1. Take any run of cycles from an engine state, followed by two more cycles, with clock
  readings that never go back (each \<open>time.Now()\<close> is at or after the engine's
  \<open>lastChanged\<close> at start and after every earlier reading). All cycles return, and
  \<open>lastChanged\<close> never goes back: not over the run, not over either cycle. In each cycle it
  becomes the reading of the clock when the comparator reports a change, which it does on the
  first snapshot, and stays as it was otherwise. A cycle without change also leaves the
  sticky change-set as it was and stamps the snapshot with the old \<open>lastChanged\<close>; the
  change-set it renders marks the same fields as the one the cycle before rendered, and
  every message it sends is the new snapshot rendered with that earlier change-set.
\<close>

theorem lastChanged_never_moves_backward:
  assumes "sorted (lastChanged a # map (\<lambda>x. now (fst x)) (xs @ [(e1, d1), (e2, d2)]))"
  shows "\<exists>a1 c1 c2.
     runCycles a xs = Inr a1 \<and>
     processQueueUpdate e1 a1 (Some d1) = Inr c1 \<and>
     processQueueUpdate e2 (app c1) (Some d2) = Inr c2 \<and>
     runCycles a (xs @ [(e1, d1), (e2, d2)]) = Inr (app c2) \<and>
     lastChanged a \<le> lastChanged a1 \<and>
     lastChanged a1 \<le> lastChanged (app c1) \<and>
     lastChanged (app c1) \<le> lastChanged (app c2) \<and>
     (lastData a1 = None \<longrightarrow> lastChanged (app c1) = now e1) \<and>
     lastChanged (app c1) = (if reportsChange a1 d1 then now e1 else lastChanged a1) \<and>
     lastChanged (app c2) = (if reportsChange (app c1) d2 then now e2 else lastChanged (app c1)) \<and>
     (\<not> reportsChange a1 d1 \<longrightarrow> lastChanges (app c1) = lastChanges a1) \<and>
     (\<not> reportsChange (app c1) d2 \<longrightarrow>
        lastChanges (app c2) = lastChanges (app c1) \<and>
        LastChanged (snapshot c2) = lastChanged (app c1) \<and>
        (\<forall>k. fieldChanged (shown c2) k = fieldChanged (shown c1) k) \<and>
        (\<forall>x \<in> set (trace c2).
           callText x = FormatTelegramMessage (clock e2) (snapshot c2) (shown c1)))"
proof -
  from assms have prefix: "sorted (lastChanged a # map (\<lambda>x. now (fst x)) xs)"
    and a_e1: "lastChanged a \<le> now e1"
    and xs_e1: "list_all (\<lambda>x. now (fst x) \<le> now e1) xs"
    and e1_e2: "now e1 \<le> now e2"
    by (auto simp: sorted_append list_all_iff)
  from runCycles_monotone [OF prefix] obtain a1 where a1: "runCycles a xs = Inr a1"
    and mono0: "lastChanged a \<le> lastChanged a1"
    and bound: "\<forall>t. lastChanged a \<le> t \<and> list_all (\<lambda>x. now (fst x) \<le> t) xs
                   \<longrightarrow> lastChanged a1 \<le> t"
    by blast
  from bound a_e1 xs_e1 have a1_e1: "lastChanged a1 \<le> now e1"
    by blast
  obtain c1 where c1: "processQueueUpdate e1 a1 (Some d1) = Inr c1"
    and lc1: "lastChanged (app c1) = (if reportsChange a1 d1 then now e1 else lastChanged a1)"
    and keep1: "\<not> reportsChange a1 d1 \<longrightarrow>
                  lastChanges (app c1) = lastChanges a1 \<and> shown c1 = lastChanges a1"
    and marks1: "\<forall>k. fieldChanged (lastChanges (app c1)) k = fieldChanged (shown c1) k"
    using processQueueUpdate_fields [of e1 a1 d1] by blast
  obtain c2 where c2: "processQueueUpdate e2 (app c1) (Some d2) = Inr c2"
    and lc2: "lastChanged (app c2) =
                (if reportsChange (app c1) d2 then now e2 else lastChanged (app c1))"
    and snap2: "snapshot c2 = d2\<lparr>LastChanged := lastChanged (app c2)\<rparr>"
    and keep2: "\<not> reportsChange (app c1) d2 \<longrightarrow>
                  lastChanges (app c2) = lastChanges (app c1) \<and> shown c2 = lastChanges (app c1)"
    and texts2: "\<forall>x \<in> set (trace c2).
                   callText x = FormatTelegramMessage (clock e2) (snapshot c2) (shown c2)"
    using processQueueUpdate_fields [of e2 "app c1" d2] by blast
  have run: "runCycles a (xs @ [(e1, d1), (e2, d2)]) = Inr (app c2)"
    by (simp add: runCycles_append a1 c1 c2)
  have mono1: "lastChanged a1 \<le> lastChanged (app c1)"
    using a1_e1 by (simp add: lc1)
  have "lastChanged (app c1) \<le> now e2"
    using a1_e1 e1_e2 by (simp add: lc1)
  then have mono2: "lastChanged (app c1) \<le> lastChanged (app c2)"
    by (simp add: lc2)
  have first: "lastData a1 = None \<longrightarrow> lastChanged (app c1) = now e1"
    by (simp add: lc1 reportsChange_first)
  have sticky: "lastChanges (app c2) = lastChanges (app c1) \<and>
      LastChanged (snapshot c2) = lastChanged (app c1) \<and>
      (\<forall>k. fieldChanged (shown c2) k = fieldChanged (shown c1) k) \<and>
      (\<forall>x \<in> set (trace c2).
         callText x = FormatTelegramMessage (clock e2) (snapshot c2) (shown c1))"
    if quiet: "\<not> reportsChange (app c1) d2"
  proof -
    from quiet keep2 have same: "lastChanges (app c2) = lastChanges (app c1)"
      and shown2: "shown c2 = lastChanges (app c1)"
      by blast+
    from marks1 shown2 have marks: "fieldChanged (shown c2) k = fieldChanged (shown c1) k" for k
      by simp
    then have "FormatTelegramMessage (clock e2) (snapshot c2) (shown c2) =
        FormatTelegramMessage (clock e2) (snapshot c2) (shown c1)"
      by (rule FormatTelegramMessage_markers)
    with texts2 same marks quiet show ?thesis
      by (simp add: snap2 lc2)
  qed
  from keep1 have keep1': "\<not> reportsChange a1 d1 \<longrightarrow> lastChanges (app c1) = lastChanges a1"
    by blast
  from sticky have sticky': "\<not> reportsChange (app c1) d2 \<longrightarrow>
      lastChanges (app c2) = lastChanges (app c1) \<and>
      LastChanged (snapshot c2) = lastChanged (app c1) \<and>
      (\<forall>k. fieldChanged (shown c2) k = fieldChanged (shown c1) k) \<and>
      (\<forall>x \<in> set (trace c2).
         callText x = FormatTelegramMessage (clock e2) (snapshot c2) (shown c1))"
    by blast
  show ?thesis
    by (intro exI [of _ a1] exI [of _ c1] exI [of _ c2] conjI)
      (fact a1 c1 c2 run mono0 mono1 mono2 first lc1 lc2 keep1' sticky')+
qed

theorem lastChanged_never_moves_backward_witness:
  "sorted (lastChanged sampleApp # map (\<lambda>x. now (fst x))
     ([] @ [(sampleEnv\<lparr>now := 200\<rparr>, sampleQueue),
            (sampleEnv\<lparr>now := 300\<rparr>, sampleQueue\<lparr>LastUpdated := 1011\<rparr>)])) \<and>
   (\<exists>a2. runCycles sampleApp
           [(sampleEnv\<lparr>now := 200\<rparr>, sampleQueue),
            (sampleEnv\<lparr>now := 300\<rparr>, sampleQueue\<lparr>LastUpdated := 1011\<rparr>)] = Inr a2 \<and>
         lastChanged sampleApp \<le> lastChanged a2 \<and> lastChanged a2 = 200 \<and>
         lastChanges a2 = None)"
proof -
  let ?e1 = "sampleEnv\<lparr>now := 200\<rparr>"
  let ?e2 = "sampleEnv\<lparr>now := 300\<rparr>"
  let ?d2 = "sampleQueue\<lparr>LastUpdated := 1011\<rparr>"
  have readings: "sorted (lastChanged sampleApp # map (\<lambda>x. now (fst x))
      ([] @ [(?e1, sampleQueue), (?e2, ?d2)]))"
    by (simp add: sampleApp_def)
  from lastChanged_never_moves_backward [OF readings] show ?thesis
  proof (elim exE conjE)
    fix a1 c1 c2
    assume a1: "runCycles sampleApp [] = Inr a1"
      and c1: "processQueueUpdate ?e1 a1 (Some sampleQueue) = Inr c1"
      and run: "runCycles sampleApp ([] @ [(?e1, sampleQueue), (?e2, ?d2)]) = Inr (app c2)"
      and mono: "lastChanged sampleApp \<le> lastChanged a1" "lastChanged a1 \<le> lastChanged (app c1)"
        "lastChanged (app c1) \<le> lastChanged (app c2)"
      and lc1: "lastChanged (app c1) =
          (if reportsChange a1 sampleQueue then now ?e1 else lastChanged a1)"
      and lc2: "lastChanged (app c2) =
          (if reportsChange (app c1) ?d2 then now ?e2 else lastChanged (app c1))"
      and keep2: "\<not> reportsChange (app c1) ?d2 \<longrightarrow>
          lastChanges (app c2) = lastChanges (app c1) \<and>
          LastChanged (snapshot c2) = lastChanged (app c1) \<and>
          (\<forall>k. fieldChanged (shown c2) k = fieldChanged (shown c1) k) \<and>
          (\<forall>x \<in> set (trace c2).
             callText x = FormatTelegramMessage (clock ?e2) (snapshot c2) (shown c1))"
    from a1 have a1_eq: "a1 = sampleApp"
      by simp
    have first: "reportsChange sampleApp sampleQueue"
      by (simp add: reportsChange_first sampleApp_def)
    from processQueueUpdate_fields [of ?e1 sampleApp sampleQueue] c1 a1_eq
    have last1: "lastData (app c1) = Some (sampleQueue\<lparr>LastChanged := lastChanged (app c1)\<rparr>)"
      by auto
    have sticky1: "lastChanges (app c1) = None"
      using c1 by (auto simp: a1_eq processQueueUpdate_def CompareQueues_def sampleApp_def Let_def
          split: prod.splits)
    have quiet: "\<not> reportsChange (app c1) ?d2"
      by (simp add: reportsChange_def last1 CompareQueues_def markIf_def)
    from lc1 first a1_eq have "lastChanged (app c1) = 200"
      by simp
    with lc2 quiet keep2 sticky1 have "lastChanged (app c2) = 200 \<and> lastChanges (app c2) = None"
      by simp
    with run mono readings show ?thesis
      by auto
  qed
qed

end
